theory Spec2Isabelle
  imports Main
begin

section \<open>Strings\<close>

text \<open>
  A JavaScript string is a sequence of UTF-16 code units, and \<open>length\<close>, indexing,
  \<open>trim\<close> and \<open>+\<close> work on code units. A \<open>char\<close> of the model stands for one code
  unit: the values below 0x80 are ASCII, 0xA0 is the no-break space, and the seven
  box-drawing glyphs of the welcome banner (each a single code unit in the source) are
  written with the codes 0x80 .. 0x86, which stand for nothing else.
\<close>

definition cursor :: string where
  \<comment> \<open>the one-glyph string U+2588 (full block) that the animation appends\<close>
  "cursor = [CHR 0x80]"

definition glyph :: "char \<Rightarrow> char" where
  \<comment> \<open>the banner's art is written below with ASCII stand-ins:
      # U+2588, = U+2550, | U+2551, r U+2554, 7 U+2557, L U+255A, J U+255D\<close>
  "glyph c =
     (if c = CHR ''#'' then CHR 0x80
      else if c = CHR ''='' then CHR 0x81
      else if c = CHR ''|'' then CHR 0x82
      else if c = CHR ''r'' then CHR 0x83
      else if c = CHR ''7'' then CHR 0x84
      else if c = CHR ''L'' then CHR 0x85
      else if c = CHR ''J'' then CHR 0x86
      else c)"

definition art :: "string \<Rightarrow> string" where
  "art s = map glyph s"

definition fullWelcomeMessageText :: string where
  "fullWelcomeMessageText =
     ''\<newline><pre class='' @ [CHR 0x22] @ ''text-xs sm:text-sm'' @ [CHR 0x22] @
     '' style='' @ [CHR 0x22] @
     ''font-family: 'Source Code Pro', monospace; color: #87CEEB; line-height: 1;'' @
     [CHR 0x22] @ ''>\<newline>'' @
     art ''#######7 ######7  ######7 ##7 ##7   ##7 ##7 ######7 #######7      #####7 ##7\<newline>'' @
     art ''##r====J##r===##7##r===##7##| ##|   ##| ##|##r====J ##r====J     ##r==##7##|\<newline>'' @
     art ''#####7  ##|   ##|##|   ##|##| ##|   ##| ##|##|  ###7#######7     #######|##|\<newline>'' @
     art ''##r==J  ##|   ##|##|   ##|##| L##7 ##rJ ##|##|   ##|L====##|     ##r==##|L=J\<newline>'' @
     art ''#######7L######rJL######rJ##|  L####rJ  ##|L######rJ#######|     ##|  ##|##7\<newline>'' @
     art ''L======J L=====J  L=====J L=J   L===J   L=J L=====J L======J     L=J  L=JL=J\<newline>'' @
     ''</pre>\<newline>Welcome to the EcoIuris AI CLI. How can I help you today?\<newline>''"

definition isWhiteSpace :: "char \<Rightarrow> bool" where
  \<comment> \<open>the code units that \<open>String.prototype.trim\<close> removes, as far as \<open>char\<close> reaches:
      TAB, LF, VT, FF, CR, SP, NBSP\<close>
  "isWhiteSpace c =
     (c = CHR 0x09 \<or> c = CHR 0x0A \<or> c = CHR 0x0B \<or> c = CHR 0x0C \<or> c = CHR 0x0D \<or>
      c = CHR 0x20 \<or> c = CHR 0xA0)"

definition trim :: "string \<Rightarrow> string" where
  "trim s = rev (dropWhile isWhiteSpace (rev (dropWhile isWhiteSpace s)))"

fun join :: "string \<Rightarrow> string list \<Rightarrow> string" where
  \<comment> \<open>\<open>Array.prototype.join\<close>\<close>
  "join sep [] = []"
| "join sep [x] = x"
| "join sep (x # y # ys) = x @ sep @ join sep (y # ys)"

fun splitOn :: "char \<Rightarrow> string \<Rightarrow> string list" where
  \<comment> \<open>\<open>String.prototype.split\<close> with a one-character separator\<close>
  "splitOn d [] = [[]]"
| "splitOn d (c # cs) =
     (if c = d then [] # splitOn d cs
      else (case splitOn d cs of [] \<Rightarrow> [[c]] | p # ps \<Rightarrow> (c # p) # ps))"

fun string_of_nat :: "nat \<Rightarrow> string" where
  \<comment> \<open>the decimal digits a template literal prints for a non-negative integer\<close>
  "string_of_nat n =
     (if n < 10 then [''0123456789'' ! n]
      else string_of_nat (n div 10) @ [''0123456789'' ! (n mod 10)])"

section \<open>Data model (src/App.tsx)\<close>

datatype role = User | Model

record citation =
  uri :: string
  title :: string

record message =
  role :: role
  "text" :: string
  citations :: "citation list option"

datatype AiModelKeys = ecoiuris | legal_pro | juscrawler | processual

record ai_model =
  model_name :: string
  instruction :: string

fun AI_MODELS :: "AiModelKeys \<Rightarrow> ai_model" where
  "AI_MODELS ecoiuris = \<lparr>model_name = ''EcoIuris AI'', instruction =
     ''You are an AI assistant from EcoIuris AI. Your mission is to listen, translate, protect, and transform realities. Your motto is: '' @
     [CHR 0x22] @ ''The right to exist. The power to evolve.'' @ [CHR 0x22] @
     '' You should provide helpful, ethical, and insightful responses to assist users.''\<rparr>"
| "AI_MODELS legal_pro = \<lparr>model_name = ''Gemini Legal Pro'', instruction =
     ''You are a specialized legal AI assistant. Provide detailed and accurate information on legal matters, citing relevant laws and precedents. Always include a disclaimer that you are not a substitute for a human lawyer.''\<rparr>"
| "AI_MODELS juscrawler = \<lparr>model_name = ''JusCrawler'', instruction =
     ''You are JusCrawler, an AI expert in legal data extraction and analysis. Scan and summarize legal documents, identify key entities, and provide concise reports based on the provided text.''\<rparr>"
| "AI_MODELS processual = \<lparr>model_name = ''Assistente Processual'', instruction =
     ''You are a procedural assistant AI. Guide users through legal processes step-by-step. Your tone is helpful, clear, and focused on procedural accuracy.''\<rparr>"

record File =
  \<comment> \<open>the two properties of a browser \<open>File\<close> that the program reads: \<open>name\<close>, \<open>type\<close>\<close>
  name :: string
  mimeType :: string

datatype thrown = Error string | NotError
  \<comment> \<open>a thrown value: an \<open>Error\<close> with its message, or anything else\<close>

section \<open>The hosted API, as the program calls it\<close>

datatype tool = GoogleSearch

record config =
  systemInstruction :: "string option"
  tools :: "tool list option"

record chat =
  \<comment> \<open>the object \<open>ai.chats.create\<close> returns: a handle and what it was created with\<close>
  chatId :: nat
  model :: string
  config :: config

datatype message_part = Str string | InlineData "string option" string
  \<comment> \<open>an element of \<open>messageParts\<close>: the text, or \<open>{inlineData: {data, mimeType}}\<close>\<close>

datatype api_call =
    ChatsCreate chat
  | SendMessageStream chat "message_part list"
  | GenerateContent string string config
  \<comment> \<open>\<open>ai.models.generateContent({model, contents, config})\<close>\<close>

record web =
  web_uri :: "string option"
  web_title :: "string option"

record groundingChunk =
  web :: "web option"

record groundingMetadata =
  groundingChunks :: "groundingChunk list option"

record candidate =
  groundingMetadata :: "groundingMetadata option"

record response =
  responseText :: string
  candidates :: "candidate list option"

section \<open>Component state\<close>

datatype phase = AwaitFile | AwaitStream | Streaming string | AwaitGenerate
  \<comment> \<open>the \<open>await\<close> at which a running \<open>handleSendMessage\<close> is suspended; \<open>Streaming\<close>
      carries \<open>modelResponse\<close>\<close>

record task =
  \<comment> \<open>the suspended call with the values its closure captured at the render of the submit\<close>
  currentInput :: string
  capturedFile :: "File option"
  capturedChat :: chat
  phase :: phase

record app =
  chat :: "chat option"
  messages :: "message list"
  input :: string
  isLoading :: bool
  error :: "string option"
  currentModel :: AiModelKeys
  isDeepSearch :: bool
  attachedFile :: "File option"
  welcomeAnimationIntervalRef :: "nat option"
  \<comment> \<open>the environment: live \<open>setInterval\<close> timers with the variables \<open>i\<close> and
      \<open>animatedText\<close> of their callback's closure, the next timer and chat handles, the
      API calls made so far, and the suspended send\<close>
  intervals :: "nat \<Rightarrow> (nat \<times> string) option"
  nextTimer :: nat
  nextChat :: nat
  apiCalls :: "api_call list"
  pending :: "task option"

definition initial :: app where
  "initial = \<lparr>chat = None, messages = [], input = [], isLoading = False, error = None,
     currentModel = ecoiuris, isDeepSearch = False, attachedFile = None,
     welcomeAnimationIntervalRef = None,
     intervals = (\<lambda>_. None), nextTimer = 1, nextChat = 0, apiCalls = [], pending = None\<rparr>"

section \<open>The welcome animation\<close>

definition clearInterval :: "nat \<Rightarrow> app \<Rightarrow> app" where
  "clearInterval t s = s\<lparr>intervals := (intervals s)(t := None)\<rparr>"

definition clearRef :: "app \<Rightarrow> app" where
  \<comment> \<open>\<open>if (welcomeAnimationIntervalRef.current) clearInterval(welcomeAnimationIntervalRef.current)\<close>\<close>
  "clearRef s = (case welcomeAnimationIntervalRef s of None \<Rightarrow> s | Some t \<Rightarrow> clearInterval t s)"

definition animateWelcomeMessage :: "app \<Rightarrow> app" where
  "animateWelcomeMessage s =
     (let s1 = clearRef s;
          s2 = s1\<lparr>messages := [\<lparr>role = Model, text = [], citations = None\<rparr>]\<rparr>;
          t = nextTimer s2
      in s2\<lparr>intervals := (intervals s2)(t \<mapsto> (0, [])), nextTimer := Suc t,
            welcomeAnimationIntervalRef := Some t\<rparr>)"

definition intervalCallback :: "nat \<Rightarrow> app \<Rightarrow> app" where
  \<comment> \<open>one firing of timer \<open>t\<close>: the arrow function given to \<open>setInterval\<close>\<close>
  "intervalCallback t s =
     (case intervals s t of
        None \<Rightarrow> s
      | Some (i, animatedText) \<Rightarrow>
          if i < length fullWelcomeMessageText then
            let animatedText' = animatedText @ [fullWelcomeMessageText ! i]
            in s\<lparr>messages := [\<lparr>role = Model, text = animatedText' @ cursor, citations = None\<rparr>],
                 intervals := (intervals s)(t \<mapsto> (Suc i, animatedText'))\<rparr>
          else
            (clearRef s)\<lparr>messages := [\<lparr>role = Model, text = animatedText, citations = None\<rparr>]\<rparr>)"

section \<open>Session creation (the effect on currentModel)\<close>

definition startChat :: "string \<Rightarrow> app \<Rightarrow> chat \<times> app" where
  "startChat instr s =
     (let c = \<lparr>chatId = nextChat s, model = ''gemini-2.5-flash'',
                config = \<lparr>systemInstruction = Some instr, tools = None\<rparr>\<rparr>
      in (c, s\<lparr>nextChat := Suc (nextChat s), apiCalls := apiCalls s @ [ChatsCreate c]\<rparr>))"

definition initErrorMessage :: "thrown \<Rightarrow> string" where
  "initErrorMessage e =
     (case e of Error m \<Rightarrow> m | NotError \<Rightarrow> ''An unknown error occurred during initialization.'')"

definition effectCurrentModel :: "thrown option \<Rightarrow> app \<Rightarrow> app" where
  \<comment> \<open>the body of the effect; the first argument says whether \<open>startChat\<close> throws\<close>
  "effectCurrentModel outcome s =
     (case outcome of
        None \<Rightarrow>
          (case startChat (instruction (AI_MODELS (currentModel s))) s of
             (newChat, s1) \<Rightarrow> animateWelcomeMessage (s1\<lparr>chat := Some newChat\<rparr>))
      | Some e \<Rightarrow> s\<lparr>error := Some (''Failed to initialize AI Chat: '' @ initErrorMessage e)\<rparr>)"

definition mount :: "thrown option \<Rightarrow> app" where
  "mount outcome = effectCurrentModel outcome initial"

definition onModelChange :: "AiModelKeys \<Rightarrow> thrown option \<Rightarrow> app \<Rightarrow> app" where
  \<comment> \<open>\<open>setCurrentModel(modelKey)\<close>: when the key changes, the effect's cleanup runs and
      then the effect\<close>
  "onModelChange k outcome s =
     (if k = currentModel s then s
      else effectCurrentModel outcome (clearRef (s\<lparr>currentModel := k\<rparr>)))"

section \<open>Sending a message\<close>

definition setLast :: "message \<Rightarrow> message list \<Rightarrow> message list" where
  \<comment> \<open>\<open>newMessages[newMessages.length - 1] = m\<close> on a copy of \<open>prev\<close>; on an empty array the
      write goes to the property -1 and adds no element\<close>
  "setLast m prev = (if prev = [] then [] else prev[length prev - 1 := m])"

definition errorMessage :: "thrown \<Rightarrow> string" where
  "errorMessage err = (case err of Error m \<Rightarrow> m | NotError \<Rightarrow> ''An unknown error occurred.'')"

definition catchBlock :: "thrown \<Rightarrow> app \<Rightarrow> app" where
  \<comment> \<open>the \<open>catch\<close> of \<open>handleSendMessage\<close>; \<open>prev.slice(0, -1)\<close> is \<open>butlast\<close>\<close>
  "catchBlock err s =
     s\<lparr>error := Some (''Error from AI: '' @ errorMessage err), messages := butlast (messages s)\<rparr>"

definition finallyBlock :: "app \<Rightarrow> app" where
  \<comment> \<open>the \<open>finally\<close> of \<open>handleSendMessage\<close>, after which the call has returned\<close>
  "finallyBlock s =
     s\<lparr>isLoading := False, attachedFile := None, isDeepSearch := False, pending := None\<rparr>"

definition sendMessageStream :: "chat \<Rightarrow> message_part list \<Rightarrow> app \<Rightarrow> app" where
  "sendMessageStream c parts s = s\<lparr>apiCalls := apiCalls s @ [SendMessageStream c parts]\<rparr>"

definition fileToGenerativePart :: "File \<Rightarrow> string \<Rightarrow> message_part" where
  \<comment> \<open>the second argument is \<open>reader.result\<close>; \<open>split(',')[1]\<close> is undefined when it
      holds no comma\<close>
  "fileToGenerativePart f result =
     InlineData (case splitOn (CHR '','') result of _ # d # _ \<Rightarrow> Some d | _ \<Rightarrow> None) (mimeType f)"

definition handleStandardChat :: "task \<Rightarrow> app \<Rightarrow> app" where
  \<comment> \<open>up to its first \<open>await\<close>: of \<open>fileToGenerativePart\<close> with an attachment, of
      \<open>chat.sendMessageStream\<close> (already called) without. Its \<open>if (!chat) return\<close> tests the
      \<open>chat\<close> that the guard of \<open>handleSendMessage\<close> has found non-null, so the task
      holds a chat and the early return has no branch here\<close>
  "handleStandardChat tk s =
     (case capturedFile tk of
        Some f \<Rightarrow> s\<lparr>pending := Some (tk\<lparr>phase := AwaitFile\<rparr>)\<rparr>
      | None \<Rightarrow>
          (sendMessageStream (capturedChat tk) [Str (currentInput tk)] s)
            \<lparr>pending := Some (tk\<lparr>phase := AwaitStream\<rparr>)\<rparr>)"

definition handleDeepSearch :: "task \<Rightarrow> app \<Rightarrow> app" where
  \<comment> \<open>up to its \<open>await\<close> of \<open>ai.models.generateContent\<close> (already called)\<close>
  "handleDeepSearch tk s =
     s\<lparr>messages := messages s @
          [\<lparr>role = Model, text = ''Performing deep search...'', citations = None\<rparr>],
       apiCalls := apiCalls s @
          [GenerateContent ''gemini-2.5-flash'' (currentInput tk)
             \<lparr>systemInstruction = None, tools = Some [GoogleSearch]\<rparr>],
       pending := Some (tk\<lparr>phase := AwaitGenerate\<rparr>)\<rparr>"

definition userText :: "string \<Rightarrow> File option \<Rightarrow> string" where
  \<comment> \<open>the template literal of the user entry\<close>
  "userText cur f =
     cur @
     (case f of None \<Rightarrow> [] | Some a \<Rightarrow> ''\<newline>\<newline>[File Attached: '' @ name a @ '']'')"

definition handleSendMessage :: "app \<Rightarrow> app" where
  \<comment> \<open>the submit handler up to the first \<open>await\<close> it reaches\<close>
  "handleSendMessage s =
     (if (trim (input s) = [] \<and> attachedFile s = None) \<or> isLoading s \<or> chat s = None then s
      else
        (case chat s of
           None \<Rightarrow> s
         | Some c \<Rightarrow>
             let tk = \<lparr>currentInput = input s, capturedFile = attachedFile s,
                        capturedChat = c, phase = AwaitStream\<rparr>;
                 s1 = s\<lparr>input := [],
                        messages := messages s @
                          [\<lparr>role = User, text = userText (input s) (attachedFile s),
                            citations = None\<rparr>],
                        isLoading := True, error := None\<rparr>
             in if isDeepSearch s then handleDeepSearch tk s1 else handleStandardChat tk s1))"

definition truthy :: "string option \<Rightarrow> bool" where
  "truthy v = (case v of None \<Rightarrow> False | Some x \<Rightarrow> x \<noteq> [])"

definition keep :: "web option \<Rightarrow> bool" where
  \<comment> \<open>\<open>!!web?.uri && !!web?.title\<close>\<close>
  "keep w = (case w of None \<Rightarrow> False | Some x \<Rightarrow> truthy (web_uri x) \<and> truthy (web_title x))"

definition asCitation :: "web option \<Rightarrow> citation" where
  \<comment> \<open>the narrowing of the type guard; the empty defaults are never reached on a kept entry\<close>
  "asCitation w =
     (case w of
        None \<Rightarrow> \<lparr>uri = [], title = []\<rparr>
      | Some x \<Rightarrow>
          \<lparr>uri = (case web_uri x of None \<Rightarrow> [] | Some u \<Rightarrow> u),
           title = (case web_title x of None \<Rightarrow> [] | Some t \<Rightarrow> t)\<rparr>)"

definition groundingChunksOf :: "response \<Rightarrow> groundingChunk list option" where
  \<comment> \<open>\<open>response.candidates?.[0]?.groundingMetadata?.groundingChunks\<close>\<close>
  "groundingChunksOf r =
     (case candidates r of
        None \<Rightarrow> None
      | Some [] \<Rightarrow> None
      | Some (c # _) \<Rightarrow>
          (case groundingMetadata c of None \<Rightarrow> None | Some g \<Rightarrow> groundingChunks g))"

definition citationsOf :: "response \<Rightarrow> citation list" where
  "citationsOf r =
     (case groundingChunksOf r of
        None \<Rightarrow> []
      | Some chunks \<Rightarrow> map asCitation (filter keep (map web chunks)))"

text \<open>
  What the event loop delivers: the user's actions (a persona chosen in the header,
  with whether \<open>startChat\<close> then throws; typing; the file picker; the remove, code and
  deep-search buttons; the submit), a firing of an interval timer, and the settling of
  what a suspended send awaits (the file reader's \<open>loadend\<close> with \<open>reader.result\<close>, the
  stream opened, a chunk with its text, the end of the stream, the response of
  \<open>generateContent\<close>, or the rejection of the awaited promise). The text of a chunk and
  of a response is a string, as the API contract has it.
\<close>

datatype event =
    SelectPersona AiModelKeys "thrown option"
  | Change string
  | FileChosen "File option"
  | RemoveFile
  | FormatCode
  | ToggleDeepSearch
  | Submit
  | Tick nat
  | FileLoadEnd "string option"
  | StreamOpened
  | Chunk string
  | StreamDone
  | Generated response
  | Rejected thrown

fun resume :: "phase \<Rightarrow> event \<Rightarrow> task \<Rightarrow> app \<Rightarrow> app" where
  \<comment> \<open>the suspended send continues when what it awaits settles\<close>
  "resume p (Rejected err) tk s = finallyBlock (catchBlock err s)"
| "resume AwaitFile (FileLoadEnd (Some result)) tk s =
     (case capturedFile tk of
        None \<Rightarrow> s
      | Some f \<Rightarrow>
          (sendMessageStream (capturedChat tk)
             [fileToGenerativePart f result, Str (currentInput tk)] s)
            \<lparr>pending := Some (tk\<lparr>phase := AwaitStream\<rparr>)\<rparr>)"
| "resume AwaitStream StreamOpened tk s =
     s\<lparr>messages := messages s @ [\<lparr>role = Model, text = ''...'', citations = None\<rparr>],
       pending := Some (tk\<lparr>phase := Streaming []\<rparr>)\<rparr>"
| "resume (Streaming modelResponse) (Chunk c) tk s =
     s\<lparr>messages :=
          setLast \<lparr>role = Model, text = modelResponse @ c, citations = None\<rparr> (messages s),
       pending := Some (tk\<lparr>phase := Streaming (modelResponse @ c)\<rparr>)\<rparr>"
| "resume (Streaming modelResponse) StreamDone tk s = finallyBlock s"
| "resume AwaitGenerate (Generated r) tk s =
     finallyBlock
       (s\<lparr>messages :=
            setLast \<lparr>role = Model, text = responseText r, citations = Some (citationsOf r)\<rparr>
              (messages s)\<rparr>)"
| "resume p e tk s = s"

fun step :: "event \<Rightarrow> app \<Rightarrow> app" where
  \<comment> \<open>one turn of the event loop; a control that is rendered disabled gives no event\<close>
  "step (SelectPersona k outcome) s = onModelChange k outcome s"
| "step (Change v) s = (if isLoading s \<or> chat s = None then s else s\<lparr>input := v\<rparr>)"
| "step (FileChosen f) s = (if isLoading s then s else s\<lparr>attachedFile := f\<rparr>)"
| "step RemoveFile s = (if attachedFile s = None then s else s\<lparr>attachedFile := None\<rparr>)"
| "step FormatCode s =
     (if isLoading s then s
      else s\<lparr>input := [CHR 0x60, CHR 0x60, CHR 0x60] @ ''\<newline>'' @ input s @ ''\<newline>'' @
                        [CHR 0x60, CHR 0x60, CHR 0x60]\<rparr>)"
| "step ToggleDeepSearch s = (if isLoading s then s else s\<lparr>isDeepSearch := \<not> isDeepSearch s\<rparr>)"
| "step Submit s = handleSendMessage s"
| "step (Tick t) s = intervalCallback t s"
| "step e s = (case pending s of None \<Rightarrow> s | Some tk \<Rightarrow> resume (phase tk) e tk s)"

fun run :: "event list \<Rightarrow> app \<Rightarrow> app" where
  "run [] s = s"
| "run (e # es) s = run es (step e s)"

inductive reachable :: "app \<Rightarrow> bool" where
  mounted: "reachable (mount outcome)"
| stepped: "reachable s \<Longrightarrow> reachable (step e s)"

section \<open>Export\<close>

definition plainText :: "(string \<Rightarrow> string) \<Rightarrow> (string \<Rightarrow> string) \<Rightarrow> string \<Rightarrow> string" where
  \<comment> \<open>\<open>tempDiv.textContent || tempDiv.innerText || ""\<close> after \<open>tempDiv.innerHTML = t\<close>;
      \<open>textContent\<close> and \<open>innerText\<close> are the browser's readings of a detached \<open>div\<close>
      whose \<open>innerHTML\<close> was set to the argument\<close>
  "plainText textContent innerText t =
     (if textContent t \<noteq> [] then textContent t
      else if innerText t \<noteq> [] then innerText t
      else [])"

definition handleDownloadChat ::
    "(string \<Rightarrow> string) \<Rightarrow> (string \<Rightarrow> string) \<Rightarrow> message list \<Rightarrow> string" where
  \<comment> \<open>the content of the blob\<close>
  "handleDownloadChat textContent innerText msgs =
     join ''\<newline>\<newline>---\<newline>\<newline>''
       (map (\<lambda>msg.
          let prefix = (if role msg = User then ''> User:'' else ''< AI:'');
              citationsText =
                (case citations msg of
                   None \<Rightarrow> []
                 | Some cs \<Rightarrow>
                     if length cs > 0 then
                       ''\<newline>\<newline>Sources:\<newline>'' @
                       join ''\<newline>''
                         (map (\<lambda>(c, i). ''['' @ string_of_nat (i + 1) @ ''] '' @ title c @ '': '' @ uri c)
                            (zip cs [0 ..< length cs]))
                     else []);
              plain = plainText textContent innerText (text msg)
          in prefix @ ''\<newline>'' @ plain @ citationsText) msgs)"

section \<open>Reference definitions for the claims\<close>


text \<open>
  The two kinds of event that may fall between the submit of a standard-chat send and
  the end of its stream without touching the transcript: what the send itself awaits
  before its stream ends (the file read, the stream opened, a chunk), and the user's
  actions on the form. A firing of a timer and the choice of a persona are neither.
\<close>

fun streamEvent :: "event \<Rightarrow> bool" where
  "streamEvent (FileLoadEnd r) = True"
| "streamEvent StreamOpened = True"
| "streamEvent (Chunk c) = True"
| "streamEvent e = False"

fun bystander :: "event \<Rightarrow> bool" where
  "bystander (Change v) = True"
| "bystander (FileChosen f) = True"
| "bystander RemoveFile = True"
| "bystander FormatCode = True"
| "bystander ToggleDeepSearch = True"
| "bystander Submit = True"
| "bystander e = False"

text \<open>
  The export, stated apart from the code: an entry is its role's heading, a newline
  and what is read back from the element (its text content, or its inner text when
  the text content is empty), then the sources block when the entry has citations,
  its lines numbered from 1; the entries are joined by the separator.
\<close>

definition spec_reading :: "(string \<Rightarrow> string) \<Rightarrow> (string \<Rightarrow> string) \<Rightarrow> string \<Rightarrow> string" where
  "spec_reading textContent innerText t =
     (if textContent t = [] then innerText t else textContent t)"

fun spec_source_lines :: "nat \<Rightarrow> citation list \<Rightarrow> string list" where
  "spec_source_lines n [] = []"
| "spec_source_lines n (c # cs) =
     (''['' @ string_of_nat n @ ''] '' @ title c @ '': '' @ uri c) # spec_source_lines (Suc n) cs"

definition spec_entry ::
    "(string \<Rightarrow> string) \<Rightarrow> (string \<Rightarrow> string) \<Rightarrow> message \<Rightarrow> string" where
  "spec_entry textContent innerText m =
     (case role m of User \<Rightarrow> ''> User:'' | Model \<Rightarrow> ''< AI:'') @ ''\<newline>'' @
     spec_reading textContent innerText (text m) @
     (case citations m of
        None \<Rightarrow> []
      | Some [] \<Rightarrow> []
      | Some (c # cs) \<Rightarrow>
          ''\<newline>\<newline>Sources:\<newline>'' @ join ''\<newline>'' (spec_source_lines 1 (c # cs)))"

fun spec_export ::
    "(string \<Rightarrow> string) \<Rightarrow> (string \<Rightarrow> string) \<Rightarrow> message list \<Rightarrow> string" where
  "spec_export textContent innerText [] = []"
| "spec_export textContent innerText [m] = spec_entry textContent innerText m"
| "spec_export textContent innerText (m # m' # ms) =
     spec_entry textContent innerText m @ ''\<newline>\<newline>---\<newline>\<newline>'' @
     spec_export textContent innerText (m' # ms)"

text \<open>
  What the contract of the browser gives for the readings: a text with no character
  that the HTML parser treats specially (no \<open><\<close>, no \<open>&\<close>, no carriage return, no NUL)
  is read back as it is.
\<close>

definition htmlFree :: "string \<Rightarrow> bool" where
  "htmlFree t \<longleftrightarrow>
     CHR ''<'' \<notin> set t \<and> CHR ''&'' \<notin> set t \<and> CHR 0x0D \<notin> set t \<and> CHR 0x00 \<notin> set t"

definition readsPlain :: "(string \<Rightarrow> string) \<Rightarrow> bool" where
  "readsPlain reading \<longleftrightarrow> (\<forall>t. htmlFree t \<longrightarrow> reading t = t)"

text \<open>
  A reading to evaluate examples with: the text content of the parsed fragment for
  texts as simple as the ones used below. A \<open><\<close> directly followed by a letter, or by
  \<open>/\<close> and a letter, opens a tag, which ends at the next \<open>>\<close>; every other character is
  text. (Character references, comments and a \<open>>\<close> inside a quoted attribute are outside
  it.)
\<close>

definition isLetter :: "char \<Rightarrow> bool" where
  "isLetter c \<longleftrightarrow> c \<in> set ''abcdefghijklmnopqrstuvwxyzABCDEFGHIJKLMNOPQRSTUVWXYZ''"

fun opensTag :: "string \<Rightarrow> bool" where
  "opensTag [] = False"
| "opensTag [c] = isLetter c"
| "opensTag (c # d # cs) = (isLetter c \<or> (c = CHR ''/'' \<and> isLetter d))"

fun tagless :: "bool \<Rightarrow> string \<Rightarrow> string" where
  "tagless inTag [] = []"
| "tagless True (c # cs) = (if c = CHR ''>'' then tagless False cs else tagless True cs)"
| "tagless False (c # cs) =
     (if c = CHR ''<'' \<and> opensTag cs then tagless True cs else c # tagless False cs)"

definition htmlText :: "string \<Rightarrow> string" where
  "htmlText t = tagless False t"

text \<open>A session of the component: the events that follow a successful mount.\<close>

definition session :: "event list \<Rightarrow> app" where
  "session es = run es (mount None)"

text \<open>
  The invariant of the animation timers: only the timer the ref holds can be live, the
  ref holds a timer already handed out, and a live timer's closure holds the count of
  characters shown so far and exactly that prefix of the banner.
\<close>

definition animation_inv :: "app \<Rightarrow> bool" where
  "animation_inv s \<longleftrightarrow>
     (\<forall>t. welcomeAnimationIntervalRef s \<noteq> Some t \<longrightarrow> intervals s t = None) \<and>
     (\<forall>t. welcomeAnimationIntervalRef s = Some t \<longrightarrow> t < nextTimer s) \<and>
     (\<forall>t i a. intervals s t = Some (i, a) \<longrightarrow>
        i \<le> length fullWelcomeMessageText \<and> a = take i fullWelcomeMessageText)"

section \<open>Basic facts\<close>

lemma dropWhile_all_iff:
  "(\<forall>x \<in> set (dropWhile P xs). P x) \<longleftrightarrow> (\<forall>x \<in> set xs. P x)"
  by (induction xs) auto

lemma trim_Nil_iff: "trim s = [] \<longleftrightarrow> (\<forall>c \<in> set s. isWhiteSpace c)"
  unfolding trim_def by (simp add: dropWhile_all_iff)

lemma submit_blocked:
  "(trim (input s) = [] \<and> attachedFile s = None) \<or> isLoading s \<or> chat s = None
     \<Longrightarrow> handleSendMessage s = s"
  by (simp add: handleSendMessage_def)

lemma submit_deep:
  assumes "trim (input s) \<noteq> [] \<or> attachedFile s \<noteq> None" "\<not> isLoading s" "chat s = Some c"
    and "isDeepSearch s"
  shows "handleSendMessage s =
     s\<lparr>input := [],
       messages := messages s @
         [\<lparr>role = User, text = userText (input s) (attachedFile s), citations = None\<rparr>,
          \<lparr>role = Model, text = ''Performing deep search...'', citations = None\<rparr>],
       isLoading := True, error := None,
       apiCalls := apiCalls s @
         [GenerateContent ''gemini-2.5-flash'' (input s)
            \<lparr>systemInstruction = None, tools = Some [GoogleSearch]\<rparr>],
       pending := Some \<lparr>currentInput = input s, capturedFile = attachedFile s,
                         capturedChat = c, phase = AwaitGenerate\<rparr>\<rparr>"
  using assms by (auto simp: handleSendMessage_def handleDeepSearch_def Let_def)

lemma submit_standard:
  assumes "trim (input s) \<noteq> [] \<or> attachedFile s \<noteq> None" "\<not> isLoading s" "chat s = Some c"
    and "\<not> isDeepSearch s" "attachedFile s = None"
  shows "handleSendMessage s =
     s\<lparr>input := [],
       messages := messages s @
         [\<lparr>role = User, text = input s, citations = None\<rparr>],
       isLoading := True, error := None,
       apiCalls := apiCalls s @ [SendMessageStream c [Str (input s)]],
       pending := Some \<lparr>currentInput = input s, capturedFile = None,
                         capturedChat = c, phase = AwaitStream\<rparr>\<rparr>"
  using assms by (auto simp: handleSendMessage_def handleStandardChat_def sendMessageStream_def
      userText_def Let_def)

lemma submit_standard_file:
  assumes "\<not> isLoading s" "chat s = Some c"
    and "\<not> isDeepSearch s" "attachedFile s = Some f"
  shows "handleSendMessage s =
     s\<lparr>input := [],
       messages := messages s @
         [\<lparr>role = User, text = userText (input s) (Some f), citations = None\<rparr>],
       isLoading := True, error := None,
       pending := Some \<lparr>currentInput = input s, capturedFile = Some f,
                         capturedChat = c, phase = AwaitFile\<rparr>\<rparr>"
  using assms by (auto simp: handleSendMessage_def handleStandardChat_def Let_def)

lemma setLast_snoc: "setLast m (xs @ [x]) = xs @ [m]"
  by (simp add: setLast_def)

lemma setLast_butlast: "xs \<noteq> [] \<Longrightarrow> setLast m xs = butlast xs @ [m]"
  by (cases xs rule: rev_cases) (simp_all add: setLast_snoc)

lemma pending_step_None:
  assumes "pending s = Some tk" "pending (step e s) = None"
  shows "\<not> isLoading (step e s) \<and> attachedFile (step e s) = None \<and> \<not> isDeepSearch (step e s)"
proof (cases e)
  case (SelectPersona k outcome)
  with assms show ?thesis
    by (auto simp: onModelChange_def effectCurrentModel_def clearRef_def clearInterval_def
        startChat_def animateWelcomeMessage_def Let_def split: option.splits if_splits)
next
  case Submit
  with assms show ?thesis
    by (auto simp: handleSendMessage_def handleDeepSearch_def handleStandardChat_def
        sendMessageStream_def Let_def split: option.splits if_splits)
next
  case (Tick t)
  with assms show ?thesis
    by (auto simp: intervalCallback_def clearRef_def clearInterval_def Let_def
        split: option.splits if_splits)
next
  case (FileLoadEnd r)
  with assms show ?thesis
    by (cases "phase tk"; cases r) (auto simp: sendMessageStream_def finallyBlock_def split: option.splits)
next
  case StreamOpened
  with assms show ?thesis by (cases "phase tk") (auto simp: finallyBlock_def)
next
  case (Chunk c)
  with assms show ?thesis by (cases "phase tk") (auto simp: finallyBlock_def)
next
  case StreamDone
  with assms show ?thesis by (cases "phase tk") (auto simp: finallyBlock_def)
next
  case (Generated r)
  with assms show ?thesis by (cases "phase tk") (auto simp: finallyBlock_def)
next
  case (Rejected err)
  with assms show ?thesis by (auto simp: finallyBlock_def)
qed (use assms in \<open>auto split: if_splits\<close>)

lemma mount_None:
  "mount None =
     \<lparr>chat = Some \<lparr>chatId = 0, model = ''gemini-2.5-flash'',
         config = \<lparr>systemInstruction = Some (instruction (AI_MODELS ecoiuris)), tools = None\<rparr>\<rparr>,
      messages = [\<lparr>role = Model, text = [], citations = None\<rparr>], input = [],
      isLoading = False, error = None, currentModel = ecoiuris, isDeepSearch = False,
      attachedFile = None, welcomeAnimationIntervalRef = Some 1,
      intervals = (\<lambda>_. None)(1 \<mapsto> (0, [])), nextTimer = 2, nextChat = 1,
      apiCalls = [ChatsCreate \<lparr>chatId = 0, model = ''gemini-2.5-flash'',
         config = \<lparr>systemInstruction = Some (instruction (AI_MODELS ecoiuris)), tools = None\<rparr>\<rparr>],
      pending = None\<rparr>"
  by (simp add: mount_def effectCurrentModel_def initial_def startChat_def
      animateWelcomeMessage_def clearRef_def clearInterval_def Let_def del: AI_MODELS.simps)



lemma setLast_snoc2: "setLast m (xs @ [a, b]) = xs @ [a, m]"
  using setLast_snoc[of m "xs @ [a]" b] by simp

lemma butlast_snoc2: "butlast (xs @ [a, b]) = xs @ [a]"
  by (simp add: butlast_append)

lemma deep_cycle_ok:
  assumes "trim (input s) \<noteq> [] \<or> attachedFile s \<noteq> None" "\<not> isLoading s" "chat s = Some c"
    and "isDeepSearch s"
  shows "run [Submit, Generated r] s =
     s\<lparr>input := [],
       messages := messages s @
         [\<lparr>role = User, text = userText (input s) (attachedFile s), citations = None\<rparr>,
          \<lparr>role = Model, text = responseText r, citations = Some (citationsOf r)\<rparr>],
       isLoading := False, error := None,
       apiCalls := apiCalls s @
         [GenerateContent ''gemini-2.5-flash'' (input s)
            \<lparr>systemInstruction = None, tools = Some [GoogleSearch]\<rparr>],
       pending := None, attachedFile := None, isDeepSearch := False\<rparr>"
  by (simp add: submit_deep[OF assms] finallyBlock_def setLast_snoc2)

lemma deep_cycle_failed:
  assumes "trim (input s) \<noteq> [] \<or> attachedFile s \<noteq> None" "\<not> isLoading s" "chat s = Some c"
    and "isDeepSearch s"
  shows "run [Submit, Rejected err] s =
     s\<lparr>input := [],
       messages := messages s @
         [\<lparr>role = User, text = userText (input s) (attachedFile s), citations = None\<rparr>],
       isLoading := False, error := Some (''Error from AI: '' @ errorMessage err),
       apiCalls := apiCalls s @
         [GenerateContent ''gemini-2.5-flash'' (input s)
            \<lparr>systemInstruction = None, tools = Some [GoogleSearch]\<rparr>],
       pending := None, attachedFile := None, isDeepSearch := False\<rparr>"
  by (simp add: submit_deep[OF assms] finallyBlock_def catchBlock_def butlast_snoc2)

lemma standard_open_failed:
  assumes "trim (input s) \<noteq> [] \<or> attachedFile s \<noteq> None" "\<not> isLoading s" "chat s = Some c"
    and "\<not> isDeepSearch s" "attachedFile s = None"
  shows "run [Submit, Rejected err] s =
     s\<lparr>input := [], isLoading := False,
       error := Some (''Error from AI: '' @ errorMessage err),
       apiCalls := apiCalls s @ [SendMessageStream c [Str (input s)]],
       pending := None, attachedFile := None, isDeepSearch := False\<rparr>"
  using assms(5) by (simp add: submit_standard[OF assms] finallyBlock_def catchBlock_def)

lemma mount_chat:
  "chat (mount None) = Some \<lparr>chatId = 0, model = ''gemini-2.5-flash'',
         config = \<lparr>systemInstruction = Some (instruction (AI_MODELS ecoiuris)), tools = None\<rparr>\<rparr>"
  by (simp add: mount_None del: AI_MODELS.simps)

lemma run_append: "run (xs @ ys) s = run ys (run xs s)"
  by (induction xs arbitrary: s) simp_all

lemma step_Chunk:
  "pending s = Some tk \<Longrightarrow> phase tk = Streaming acc \<Longrightarrow>
   step (Chunk c) s =
     s\<lparr>messages := setLast \<lparr>role = Model, text = acc @ c, citations = None\<rparr> (messages s),
       pending := Some (tk\<lparr>phase := Streaming (acc @ c)\<rparr>)\<rparr>"
  by simp

lemma chunks_run:
  assumes "pending s = Some tk" "phase tk = Streaming acc" "messages s = ms @ [m0]"
  shows "messages (run (map Chunk cs) s) =
           ms @ [if cs = [] then m0 else \<lparr>role = Model, text = acc @ concat cs, citations = None\<rparr>] \<and>
         pending (run (map Chunk cs) s) = Some (tk\<lparr>phase := Streaming (acc @ concat cs)\<rparr>)"
  using assms
proof (induction cs arbitrary: s tk acc m0)
  case Nil
  then show ?case by simp
next
  case (Cons c cs)
  define u where "u = step (Chunk c) s"
  have u: "u = s\<lparr>messages := ms @ [\<lparr>role = Model, text = acc @ c, citations = None\<rparr>],
       pending := Some (tk\<lparr>phase := Streaming (acc @ c)\<rparr>)\<rparr>"
    unfolding u_def using Cons.prems by (simp add: setLast_snoc)
  have "messages (run (map Chunk cs) u) =
           ms @ [if cs = [] then \<lparr>role = Model, text = acc @ c, citations = None\<rparr>
                 else \<lparr>role = Model, text = (acc @ c) @ concat cs, citations = None\<rparr>] \<and>
         pending (run (map Chunk cs) u) =
           Some ((tk\<lparr>phase := Streaming (acc @ c)\<rparr>)\<lparr>phase := Streaming ((acc @ c) @ concat cs)\<rparr>)"
    by (rule Cons.IH) (simp_all add: u)
  moreover have "run (map Chunk (c # cs)) s = run (map Chunk cs) u"
    unfolding u_def by simp
  ultimately show ?case by simp
qed

lemma stream_run:
  assumes "pending s = Some tk" "phase tk = AwaitStream"
  shows "messages (run (StreamOpened # map Chunk cs) s) =
           messages s @ [\<lparr>role = Model, text = (if cs = [] then ''...'' else concat cs),
                          citations = None\<rparr>] \<and>
         pending (run (StreamOpened # map Chunk cs) s) =
           Some (tk\<lparr>phase := Streaming (concat cs)\<rparr>)"
proof -
  define u where "u = step StreamOpened s"
  have u: "u = s\<lparr>messages := messages s @ [\<lparr>role = Model, text = ''...'', citations = None\<rparr>],
       pending := Some (tk\<lparr>phase := Streaming []\<rparr>)\<rparr>"
    unfolding u_def using assms by simp
  have "messages (run (map Chunk cs) u) =
           messages s @ [if cs = [] then \<lparr>role = Model, text = ''...'', citations = None\<rparr>
                 else \<lparr>role = Model, text = [] @ concat cs, citations = None\<rparr>] \<and>
         pending (run (map Chunk cs) u) =
           Some ((tk\<lparr>phase := Streaming []\<rparr>)\<lparr>phase := Streaming ([] @ concat cs)\<rparr>)"
    by (rule chunks_run) (simp_all add: u)
  moreover have "run (StreamOpened # map Chunk cs) s = run (map Chunk cs) u"
    unfolding u_def by simp
  ultimately show ?thesis by simp
qed

lemma stream_done:
  assumes "pending s = Some tk" "phase tk = AwaitStream"
  shows "messages (run (StreamOpened # map Chunk cs @ [StreamDone]) s) =
           messages s @ [\<lparr>role = Model, text = (if cs = [] then ''...'' else concat cs),
                          citations = None\<rparr>] \<and>
         pending (run (StreamOpened # map Chunk cs @ [StreamDone]) s) = None"
proof -
  define u where "u = run (StreamOpened # map Chunk cs) s"
  have m: "messages u = messages s @ [\<lparr>role = Model, text = (if cs = [] then ''...'' else concat cs),
                          citations = None\<rparr>]"
    and p: "pending u = Some (tk\<lparr>phase := Streaming (concat cs)\<rparr>)"
    unfolding u_def using stream_run[OF assms] by blast+
  have "run (StreamOpened # map Chunk cs @ [StreamDone]) s = step StreamDone u"
    unfolding u_def using run_append[of "StreamOpened # map Chunk cs" "[StreamDone]" s] by simp
  moreover have "step StreamDone u = finallyBlock u"
    using p by simp
  ultimately show ?thesis using m by (simp add: finallyBlock_def)
qed

lemma source_lines:
  "map (\<lambda>(c, i). ''['' @ string_of_nat (i + 1) @ ''] '' @ title c @ '': '' @ uri c)
     (zip cs [n ..< n + length cs]) = spec_source_lines (Suc n) cs"
proof (induction cs arbitrary: n)
  case Nil
  show ?case by simp
next
  case (Cons c cs)
  have "[n ..< n + length (c # cs)] = n # [Suc n ..< Suc n + length cs]"
    by (subst upt_rec) simp
  then show ?case using Cons.IH[of "Suc n"] by (simp del: string_of_nat.simps)
qed

lemma plainText_reading: "plainText tc it t = spec_reading tc it t"
  by (simp add: plainText_def spec_reading_def)

lemma export_entry:
  "(let prefix = (if role msg = User then ''> User:'' else ''< AI:'');
        citationsText =
          (case citations msg of
             None \<Rightarrow> []
           | Some cs \<Rightarrow>
               if length cs > 0 then
                 ''\<newline>\<newline>Sources:\<newline>'' @
                 join ''\<newline>''
                   (map (\<lambda>(c, i). ''['' @ string_of_nat (i + 1) @ ''] '' @ title c @ '': '' @ uri c)
                      (zip cs [0 ..< length cs]))
               else []);
        plain = plainText textContent innerText (text msg)
    in prefix @ ''\<newline>'' @ plain @ citationsText) = spec_entry textContent innerText msg"
proof -
  have "map (\<lambda>(c, i). ''['' @ string_of_nat (i + 1) @ ''] '' @ title c @ '': '' @ uri c)
     (zip cs [0 ..< length cs]) = spec_source_lines 1 cs" for cs
    using source_lines[of cs 0] by simp
  then show ?thesis
    by (cases "role msg"; cases "citations msg")
       (auto simp: spec_entry_def plainText_reading Let_def
          simp del: string_of_nat.simps spec_source_lines.simps
          split: list.splits)
qed

lemma join_spec_export:
  "join ''\<newline>\<newline>---\<newline>\<newline>'' (map (spec_entry textContent innerText) msgs) =
     spec_export textContent innerText msgs"
  by (induction textContent innerText msgs rule: spec_export.induct) simp_all

lemma stream_failed:
  assumes "pending s = Some tk" "phase tk = AwaitStream"
  shows "messages (run (StreamOpened # map Chunk cs @ [Rejected err]) s) = messages s"
proof -
  define u where "u = run (StreamOpened # map Chunk cs) s"
  have m: "messages u = messages s @ [\<lparr>role = Model, text = (if cs = [] then ''...'' else concat cs),
                          citations = None\<rparr>]"
    and p: "pending u = Some (tk\<lparr>phase := Streaming (concat cs)\<rparr>)"
    unfolding u_def using stream_run[OF assms] by blast+
  have "run (StreamOpened # map Chunk cs @ [Rejected err]) s = step (Rejected err) u"
    unfolding u_def using run_append[of "StreamOpened # map Chunk cs" "[Rejected err]" s] by simp
  moreover have "step (Rejected err) u = finallyBlock (catchBlock err u)"
    using p by simp
  ultimately show ?thesis using m by (simp add: finallyBlock_def catchBlock_def)
qed

lemma standard_awaits_stream:
  assumes "trim (input s) \<noteq> [] \<or> attachedFile s \<noteq> None" "\<not> isLoading s" "chat s = Some c"
    and "\<not> isDeepSearch s"
  shows "\<exists>tk. pending (run (Submit # (case attachedFile s of None \<Rightarrow> []
                                          | Some f \<Rightarrow> [FileLoadEnd (Some d)])) s) = Some tk \<and>
              phase tk = AwaitStream \<and>
              messages (run (Submit # (case attachedFile s of None \<Rightarrow> []
                                          | Some f \<Rightarrow> [FileLoadEnd (Some d)])) s) =
                messages s @
                  [\<lparr>role = User, text = userText (input s) (attachedFile s), citations = None\<rparr>]"
proof (cases "attachedFile s")
  case None
  then show ?thesis
    using submit_standard[OF assms None] by (simp add: userText_def)
next
  case (Some f)
  then show ?thesis
    using submit_standard_file[OF assms(2,3,4) Some] by (simp add: sendMessageStream_def)
qed

subsection \<open>The animation timers\<close>

lemma inv_clearRef:
  "animation_inv s \<Longrightarrow> animation_inv (clearRef s) \<and> (\<forall>t. intervals (clearRef s) t = None)"
  by (auto simp: animation_inv_def clearRef_def clearInterval_def split: option.splits)

lemma timers_clearRef [simp]:
  "nextTimer (clearRef s) = nextTimer s"
  "welcomeAnimationIntervalRef (clearRef s) = welcomeAnimationIntervalRef s"
  by (simp_all add: clearRef_def clearInterval_def split: option.splits)

lemma inv_effect:
  assumes "animation_inv s" "\<forall>t. intervals s t = None"
  shows "animation_inv (effectCurrentModel outcome s)"
proof (cases outcome)
  case None
  then show ?thesis
    using assms
    by (auto simp: animation_inv_def effectCurrentModel_def startChat_def
        animateWelcomeMessage_def clearRef_def clearInterval_def Let_def split: option.splits)
next
  case (Some e)
  then show ?thesis
    using assms by (auto simp: animation_inv_def effectCurrentModel_def)
qed

lemma inv_mount: "animation_inv (mount outcome)"
  unfolding mount_def by (rule inv_effect) (simp_all add: animation_inv_def initial_def)

lemma inv_send: "animation_inv s \<Longrightarrow> animation_inv (handleSendMessage s)"
  by (auto simp: animation_inv_def handleSendMessage_def handleDeepSearch_def
      handleStandardChat_def sendMessageStream_def Let_def split: option.splits)

lemma resume_timers:
  "intervals (resume p e tk s) = intervals s \<and>
   welcomeAnimationIntervalRef (resume p e tk s) = welcomeAnimationIntervalRef s \<and>
   nextTimer (resume p e tk s) = nextTimer s"
  by (cases "(p, e, tk, s)" rule: resume.cases)
     (auto simp: finallyBlock_def catchBlock_def sendMessageStream_def split: option.splits)

lemma inv_resume: "animation_inv s \<Longrightarrow> animation_inv (resume p e tk s)"
  by (simp add: animation_inv_def resume_timers)

lemma inv_tick: "animation_inv s \<Longrightarrow> animation_inv (intervalCallback t s)"
  by (auto simp: animation_inv_def intervalCallback_def clearRef_def clearInterval_def Let_def
      take_Suc_conv_app_nth split: option.splits if_splits)

lemma inv_step:
  assumes i: "animation_inv s"
  shows "animation_inv (step e s)"
proof (cases e)
  case (SelectPersona k outcome)
  have "animation_inv (s\<lparr>currentModel := k\<rparr>)" using i by (simp add: animation_inv_def)
  from inv_clearRef[OF this] show ?thesis
    using i SelectPersona by (simp add: onModelChange_def inv_effect)
next
  case (Change v)
  then show ?thesis using i by (simp add: animation_inv_def)
next
  case (FileChosen f)
  then show ?thesis using i by (simp add: animation_inv_def)
next
  case RemoveFile
  then show ?thesis using i by (simp add: animation_inv_def)
next
  case FormatCode
  then show ?thesis using i by (simp add: animation_inv_def)
next
  case ToggleDeepSearch
  then show ?thesis using i by (simp add: animation_inv_def)
next
  case Submit
  then show ?thesis using i by (simp add: inv_send)
next
  case (Tick t)
  then show ?thesis using i by (simp add: inv_tick)
qed (use i in \<open>simp_all add: inv_resume del: resume.simps split: option.splits\<close>)

lemma reachable_inv: "reachable s \<Longrightarrow> animation_inv s"
  by (induction rule: reachable.induct) (simp_all add: inv_mount inv_step)


lemma tick_frame:
  assumes "animation_inv s" "intervals s t = Some (i, a)"
  shows "messages (step (Tick t) s) =
           [\<lparr>role = Model,
             text = (if i < length fullWelcomeMessageText
                     then take (Suc i) fullWelcomeMessageText @ cursor
                     else fullWelcomeMessageText),
             citations = None\<rparr>]"
proof -
  have a: "a = take i fullWelcomeMessageText" and le: "i \<le> length fullWelcomeMessageText"
    using assms by (auto simp: animation_inv_def)
  show ?thesis
    using assms(2) a le
    by (simp add: intervalCallback_def Let_def take_Suc_conv_app_nth)
qed

lemma tick_dead: "intervals s t = None \<Longrightarrow> step (Tick t) s = s"
  by (simp add: intervalCallback_def)

lemma tick_advance:
  assumes "intervals s t = Some (i, take i fullWelcomeMessageText)"
    and "i < length fullWelcomeMessageText"
  shows "step (Tick t) s =
     s\<lparr>messages := [\<lparr>role = Model, text = take (Suc i) fullWelcomeMessageText @ cursor,
                       citations = None\<rparr>],
       intervals := (intervals s)(t \<mapsto> (Suc i, take (Suc i) fullWelcomeMessageText))\<rparr>"
  using assms by (simp add: intervalCallback_def Let_def take_Suc_conv_app_nth)

lemma ticks_run:
  assumes "intervals s t = Some (i, take i fullWelcomeMessageText)"
    and "i + j \<le> length fullWelcomeMessageText"
  shows "intervals (run (replicate j (Tick t)) s) =
           (intervals s)(t \<mapsto> (i + j, take (i + j) fullWelcomeMessageText)) \<and>
         welcomeAnimationIntervalRef (run (replicate j (Tick t)) s) = welcomeAnimationIntervalRef s \<and>
         messages (run (replicate j (Tick t)) s) =
           (if j = 0 then messages s
            else [\<lparr>role = Model, text = take (i + j) fullWelcomeMessageText @ cursor,
                   citations = None\<rparr>])"
  using assms
proof (induction j arbitrary: s i)
  case 0
  then show ?case by (simp add: fun_upd_idem)
next
  case (Suc j)
  define u where "u = step (Tick t) s"
  have lt: "i < length fullWelcomeMessageText" using Suc.prems by simp
  have u: "u = s\<lparr>messages := [\<lparr>role = Model, text = take (Suc i) fullWelcomeMessageText @ cursor,
                       citations = None\<rparr>],
       intervals := (intervals s)(t \<mapsto> (Suc i, take (Suc i) fullWelcomeMessageText))\<rparr>"
    unfolding u_def by (rule tick_advance[OF Suc.prems(1) lt])
  have "intervals (run (replicate j (Tick t)) u) =
           (intervals u)(t \<mapsto> (Suc i + j, take (Suc i + j) fullWelcomeMessageText)) \<and>
         welcomeAnimationIntervalRef (run (replicate j (Tick t)) u) = welcomeAnimationIntervalRef u \<and>
         messages (run (replicate j (Tick t)) u) =
           (if j = 0 then messages u
            else [\<lparr>role = Model, text = take (Suc i + j) fullWelcomeMessageText @ cursor,
                   citations = None\<rparr>])"
    by (rule Suc.IH) (use Suc.prems in \<open>simp_all add: u\<close>)
  moreover have "run (replicate (Suc j) (Tick t)) s = run (replicate j (Tick t)) u"
    unfolding u_def by simp
  ultimately show ?case by (simp add: u)
qed

lemma tick_last:
  assumes "intervals s t = Some (length fullWelcomeMessageText, fullWelcomeMessageText)"
    and "welcomeAnimationIntervalRef s = Some t"
  shows "step (Tick t) s =
     s\<lparr>intervals := (intervals s)(t := None),
       messages := [\<lparr>role = Model, text = fullWelcomeMessageText, citations = None\<rparr>]\<rparr>"
  using assms by (simp add: intervalCallback_def clearRef_def clearInterval_def)

lemma dead_step:
  assumes "t < nextTimer s" "intervals s t = None"
  shows "intervals (step e s) t = None \<and> t < nextTimer (step e s)"
proof (cases e)
  case (SelectPersona k outcome)
  then show ?thesis
    using assms
    by (cases outcome)
       (auto simp: onModelChange_def effectCurrentModel_def startChat_def
          animateWelcomeMessage_def clearRef_def clearInterval_def Let_def split: option.splits)
next
  case (Tick t')
  then show ?thesis
    using assms
    by (auto simp: intervalCallback_def clearRef_def clearInterval_def Let_def
        split: option.splits if_splits)
next
  case Submit
  then show ?thesis
    using assms
    by (auto simp: handleSendMessage_def handleDeepSearch_def handleStandardChat_def
        sendMessageStream_def Let_def split: option.splits)
qed (use assms in \<open>simp_all add: resume_timers del: resume.simps split: option.splits\<close>)

lemma dead_run:
  "t < nextTimer s \<Longrightarrow> intervals s t = None \<Longrightarrow> intervals (run es s) t = None"
proof (induction es arbitrary: s)
  case Nil
  then show ?case by simp
next
  case (Cons e es)
  from dead_step[OF Cons.prems, of e] show ?case
    by (simp add: Cons.IH)
qed

lemma switch_state:
  assumes "animation_inv s" "k \<noteq> currentModel s"
  shows "messages (step (SelectPersona k None) s) = [\<lparr>role = Model, text = [], citations = None\<rparr>] \<and>
         intervals (step (SelectPersona k None) s) = (\<lambda>_. None)(nextTimer s \<mapsto> (0, [])) \<and>
         welcomeAnimationIntervalRef (step (SelectPersona k None) s) = Some (nextTimer s)"
proof -
  have "animation_inv (s\<lparr>currentModel := k\<rparr>)" using assms(1) by (simp add: animation_inv_def)
  from inv_clearRef[OF this] have d: "intervals (clearRef (s\<lparr>currentModel := k\<rparr>)) = (\<lambda>_. None)"
    by auto
  show ?thesis
    using assms(2) d
    by (simp add: onModelChange_def effectCurrentModel_def startChat_def
        animateWelcomeMessage_def Let_def)
       (simp add: clearRef_def clearInterval_def split: option.splits)
qed

lemma switch_clears:
  assumes "animation_inv s" "k \<noteq> currentModel s" "t < nextTimer s"
  shows "intervals (step (SelectPersona k outcome) s) t = None \<and>
         t < nextTimer (step (SelectPersona k outcome) s)"
proof -
  have "animation_inv (s\<lparr>currentModel := k\<rparr>)" using assms(1) by (simp add: animation_inv_def)
  from inv_clearRef[OF this] have d: "intervals (clearRef (s\<lparr>currentModel := k\<rparr>)) = (\<lambda>_. None)"
    by auto
  show ?thesis
    using assms(2,3) d
    by (cases outcome)
       (auto simp: onModelChange_def effectCurrentModel_def startChat_def
        animateWelcomeMessage_def Let_def clearRef_def clearInterval_def split: option.splits)
qed


lemma submit_ignores_timers:
  "handleSendMessage (s\<lparr>intervals := f, welcomeAnimationIntervalRef := r\<rparr>) =
     (handleSendMessage s)\<lparr>intervals := f, welcomeAnimationIntervalRef := r\<rparr>"
  by (auto simp: handleSendMessage_def handleDeepSearch_def handleStandardChat_def
      sendMessageStream_def Let_def split: option.splits)

lemma banner_nonempty: "0 < length fullWelcomeMessageText"
  by (simp add: fullWelcomeMessageText_def)

lemma banner_first: "take 1 fullWelcomeMessageText = ''\<newline>''"
  by (simp add: fullWelcomeMessageText_def)

lemma reachable_session: "reachable (session es)"
proof -
  have "reachable (run es s)" if "reachable s" for s
    using that by (induction es arbitrary: s) (simp_all add: reachable.stepped)
  then show ?thesis unfolding session_def by (simp add: reachable.mounted)
qed

lemma mount_timer:
  "nextTimer (mount None) = 2" "currentModel (mount None) = ecoiuris"
  "intervals (mount None) = (\<lambda>_. None)(1 \<mapsto> (0, []))"
  by (simp_all add: mount_None del: AI_MODELS.simps)

subsection \<open>Events interleaved with a stream\<close>

lemma bystander_step:
  assumes "isLoading u" "bystander e"
  shows "messages (step e u) = messages u \<and> pending (step e u) = pending u \<and>
         isLoading (step e u)"
  using assms by (cases e) (simp_all add: handleSendMessage_def)

lemma resume_core:
  assumes "messages u = messages u'" "pending u = pending u'"
  shows "messages (resume p e tk u) = messages (resume p e tk u') \<and>
         pending (resume p e tk u) = pending (resume p e tk u')"
  using assms
  by (cases "(p, e, tk, u)" rule: resume.cases)
     (auto simp: finallyBlock_def catchBlock_def sendMessageStream_def split: option.splits)

lemma async_step_core:
  assumes "streamEvent e \<or> e = StreamDone" "messages u = messages u'" "pending u = pending u'"
  shows "messages (step e u) = messages (step e u') \<and> pending (step e u) = pending (step e u')"
proof (cases "pending u")
  case None
  then show ?thesis using assms by (cases e) simp_all
next
  case (Some tk)
  then show ?thesis
    using assms resume_core[OF assms(2,3), of "phase tk" e tk]
    by (cases e) (simp_all del: resume.simps)
qed

lemma resume_loading:
  "streamEvent e \<Longrightarrow> isLoading (resume p e tk u) = isLoading u"
  by (cases "(p, e, tk, u)" rule: resume.cases)
     (auto simp: sendMessageStream_def split: option.splits)

lemma stream_step_loading:
  "streamEvent e \<Longrightarrow> isLoading (step e u) = isLoading u"
  by (cases e) (simp_all add: resume_loading del: resume.simps split: option.splits)

lemma interleaved_run:
  assumes "isLoading u" "messages u = messages u'" "pending u = pending u'"
    and "\<forall>e \<in> set pre. streamEvent e \<or> bystander e"
  shows "messages (run pre u) = messages (run (filter streamEvent pre) u') \<and>
         pending (run pre u) = pending (run (filter streamEvent pre) u') \<and>
         isLoading (run pre u)"
  using assms
proof (induction pre arbitrary: u u')
  case Nil
  then show ?case by simp
next
  case (Cons e pre)
  show ?case
  proof (cases "streamEvent e")
    case True
    have c: "messages (step e u) = messages (step e u') \<and> pending (step e u) = pending (step e u')"
      using async_step_core[of e u u'] True Cons.prems by blast
    have l: "isLoading (step e u)" using True Cons.prems(1) by (simp add: stream_step_loading)
    from Cons.IH[of "step e u" "step e u'"] c l Cons.prems(4) True
    show ?thesis by simp
  next
    case False
    then have b: "bystander e" using Cons.prems(4) by simp
    from bystander_step[OF Cons.prems(1) b] Cons.prems
    have "isLoading (step e u)" "messages (step e u) = messages u'" "pending (step e u) = pending u'"
      by simp_all
    from Cons.IH[OF this] Cons.prems(4) False
    show ?thesis by simp
  qed
qed

lemma submit_loading:
  assumes "trim (input s) \<noteq> [] \<or> attachedFile s \<noteq> None" "\<not> isLoading s" "chat s = Some c"
  shows "isLoading (step Submit s)"
  using assms
  by (auto simp: handleSendMessage_def handleDeepSearch_def handleStandardChat_def
      sendMessageStream_def Let_def split: option.splits)

subsection \<open>Readings of the export\<close>

lemma tagless_plain: "CHR ''<'' \<notin> set t \<Longrightarrow> tagless False t = t"
  by (induction t) auto

lemma readsPlain_htmlText: "readsPlain htmlText"
  by (simp add: readsPlain_def htmlText_def htmlFree_def tagless_plain)

lemma spec_export_cong:
  "(\<forall>m \<in> set msgs. spec_entry tc it m = spec_entry tc' it' m) \<Longrightarrow>
   spec_export tc it msgs = spec_export tc' it' msgs"
  by (induction tc it msgs rule: spec_export.induct) simp_all

lemma spec_entry_plain:
  assumes "readsPlain tc" "readsPlain it" "htmlFree (text m)"
  shows "spec_entry tc it m = spec_entry (\<lambda>t. t) (\<lambda>t. t) m"
proof -
  have "tc (text m) = text m" "it (text m) = text m"
    using assms by (simp_all add: readsPlain_def)
  then show ?thesis by (cases "text m = []") (auto simp: spec_entry_def spec_reading_def)
qed

section \<open>Rollback after a failed send\<close>

text \<open>
  Claim C1, evaluated on the code. The catch block drops the last entry of the
  transcript, whatever it is. On the standard path the provisional model entry is
  appended only after \<open>chat.sendMessageStream\<close> has resolved, so when that call
  rejects the last entry is still the user's: the session below types hi, submits with
  deep search off and no attachment, and the streaming call rejects with the message
  503. The user entry that the submit appended is gone afterwards and the transcript
  is as it was before the submit (in general: \<open>standard_open_failed\<close>). On the
  deep-search path, and once the stream is open, the entry dropped is the provisional
  one (\<open>deep_cycle_failed\<close>, \<open>stream_failed\<close>).
\<close>

theorem C1_open_failure_retracts_user_entry:
  "messages (session [Change ''hi'']) = [\<lparr>role = Model, text = [], citations = None\<rparr>] \<and>
   messages (session [Change ''hi'', Submit]) =
     [\<lparr>role = Model, text = [], citations = None\<rparr>,
      \<lparr>role = User, text = ''hi'', citations = None\<rparr>] \<and>
   messages (session [Change ''hi'', Submit, Rejected (Error ''503'')]) =
     [\<lparr>role = Model, text = [], citations = None\<rparr>] \<and>
   error (session [Change ''hi'', Submit, Rejected (Error ''503'')]) =
     Some ''Error from AI: 503''"
  by (simp add: session_def mount_None handleSendMessage_def handleStandardChat_def
      sendMessageStream_def trim_def isWhiteSpace_def Let_def userText_def
      finallyBlock_def catchBlock_def errorMessage_def del: AI_MODELS.simps)

section \<open>Animation frames and sends\<close>

text \<open>
  Claim C2, as the code has it. In a reachable state, a tick of a live timer replaces
  the whole transcript, whatever it holds, by the single model entry of the next frame
  (the next prefix of the banner with the cursor, or the banner itself at the end); a
  tick of a timer that is not live changes nothing, so no frame touches the transcript
  once the interval has been cleared; and the submit handler does not read the
  animation's state: its effect is the same whatever timers are live, so a send is
  dispatched during the animation under the ordinary guard.
\<close>

theorem C2_animation_frames_overwrite:
  assumes "reachable s"
  shows "(\<forall>i a. intervals s t = Some (i, a) \<longrightarrow>
            messages (step (Tick t) s) =
              [\<lparr>role = Model,
                text = (if i < length fullWelcomeMessageText
                        then take (Suc i) fullWelcomeMessageText @ cursor
                        else fullWelcomeMessageText),
                citations = None\<rparr>]) \<and>
         (intervals s t = None \<longrightarrow> step (Tick t) s = s) \<and>
         step Submit (s\<lparr>intervals := f, welcomeAnimationIntervalRef := r\<rparr>) =
           (step Submit s)\<lparr>intervals := f, welcomeAnimationIntervalRef := r\<rparr>"
  using tick_frame[OF reachable_inv[OF assms]] tick_dead[of s t]
    submit_ignores_timers[where s = s and f = f and r = r]
  by (simp del: step.simps(8))

theorem C2_animation_frames_overwrite_witness:
  "reachable (session [Change ''hi'', Submit]) \<and>
   intervals (session [Change ''hi'', Submit]) 1 = Some (0, []) \<and>
   messages (step (Tick 1) (session [Change ''hi'', Submit])) =
     [\<lparr>role = Model, text = ''\<newline>'' @ cursor, citations = None\<rparr>] \<and>
   intervals (session [Change ''hi'', Submit]) 7 = None \<and>
   step (Tick 7) (session [Change ''hi'', Submit]) = session [Change ''hi'', Submit]"
proof -
  let ?s = "session [Change ''hi'', Submit]"
  have h: "reachable ?s" by (rule reachable_session)
  have i1: "intervals ?s 1 = Some (0, [])" and i7: "intervals ?s 7 = None"
    by (simp_all add: session_def mount_None handleSendMessage_def handleStandardChat_def
        sendMessageStream_def trim_def isWhiteSpace_def Let_def del: AI_MODELS.simps)
  from C2_animation_frames_overwrite[OF h, of 1] i1 banner_nonempty
  have "messages (step (Tick 1) ?s) =
      [\<lparr>role = Model, text = take (Suc 0) fullWelcomeMessageText @ cursor, citations = None\<rparr>]"
    by (simp del: step.simps)
  then have a: "messages (step (Tick 1) ?s) =
      [\<lparr>role = Model, text = ''\<newline>'' @ cursor, citations = None\<rparr>]"
    using banner_first by simp
  from C2_animation_frames_overwrite[OF h, of 7] i7
  have b: "step (Tick 7) ?s = ?s" by blast
  from h i1 i7 a b show ?thesis by blast
qed

text \<open>
  The claim as stated keeps sends and frames apart. In the session below the welcome
  timer is live when the user types and submits; the send is dispatched (the call is
  suspended at its await and the user entry is in the transcript), and the next tick
  of the timer replaces that transcript by the one-entry frame.
\<close>

theorem C2_frame_overwrites_send_counterexample:
  "intervals (session [Change ''hi'']) 1 \<noteq> None \<and>
   pending (session [Change ''hi'', Submit]) \<noteq> None \<and>
   messages (session [Change ''hi'', Submit]) =
     [\<lparr>role = Model, text = [], citations = None\<rparr>,
      \<lparr>role = User, text = ''hi'', citations = None\<rparr>] \<and>
   messages (session [Change ''hi'', Submit, Tick 1]) =
     [\<lparr>role = Model, text = ''\<newline>'' @ cursor, citations = None\<rparr>]"
  using banner_first banner_nonempty
  by (simp add: session_def mount_None handleSendMessage_def handleStandardChat_def
      sendMessageStream_def trim_def isWhiteSpace_def Let_def userText_def
      intervalCallback_def take_Suc_conv_app_nth del: AI_MODELS.simps)

section \<open>Streaming a standard-chat reply\<close>

text \<open>
  Claim C3, as the code has it. Take a standard-chat send, with or without an
  attachment (whose read then comes first), and any run of the event loop after its
  submit in which the stream opens and delivers the chunks cs, while nothing else
  happens but actions of the user on the form: no timer fires and no persona is
  chosen. Then the transcript is the old one, the user entry and one model entry that
  holds the concatenation of the chunk texts so far, in arrival order; it holds the
  placeholder of three dots as long as no chunk has arrived. The end of the stream
  leaves that transcript as it is and the send is over.
\<close>

theorem C3_streaming:
  assumes "trim (input s) \<noteq> [] \<or> attachedFile s \<noteq> None" "\<not> isLoading s" "chat s = Some c"
    and "\<not> isDeepSearch s"
    and "\<forall>e \<in> set pre. streamEvent e \<or> bystander e"
    and "filter streamEvent pre =
           (case attachedFile s of None \<Rightarrow> [] | Some f \<Rightarrow> [FileLoadEnd (Some d)]) @
           StreamOpened # map Chunk cs"
  shows "messages (run (Submit # pre) s) =
           messages s @
             [\<lparr>role = User, text = userText (input s) (attachedFile s), citations = None\<rparr>,
              \<lparr>role = Model, text = (if cs = [] then ''...'' else concat cs), citations = None\<rparr>] \<and>
         messages (run (Submit # pre @ [StreamDone]) s) =
           messages s @
             [\<lparr>role = User, text = userText (input s) (attachedFile s), citations = None\<rparr>,
              \<lparr>role = Model, text = (if cs = [] then ''...'' else concat cs), citations = None\<rparr>] \<and>
         pending (run (Submit # pre @ [StreamDone]) s) = None"
proof -
  define fe where "fe = (case attachedFile s of None \<Rightarrow> [] | Some f \<Rightarrow> [FileLoadEnd (Some d)])"
  define u0 where "u0 = step Submit s"
  define u where "u = run (Submit # fe) s"
  define w where "w = run (StreamOpened # map Chunk cs) u"
  define v where "v = run pre u0"
  obtain tk where p: "pending u = Some tk" and ph: "phase tk = AwaitStream"
    and m: "messages u = messages s @
          [\<lparr>role = User, text = userText (input s) (attachedFile s), citations = None\<rparr>]"
    unfolding u_def fe_def using standard_awaits_stream[OF assms(1-4)] by blast
  have l0: "isLoading u0" unfolding u0_def by (rule submit_loading[OF assms(1-3)])
  have f: "filter streamEvent pre = fe @ StreamOpened # map Chunk cs"
    unfolding fe_def by (rule assms(6))
  have "run (fe @ StreamOpened # map Chunk cs) u0 = run (StreamOpened # map Chunk cs) (run fe u0)"
    by (rule run_append)
  also have "run fe u0 = u" unfolding u_def u0_def by simp
  finally have fw: "run (filter streamEvent pre) u0 = w" unfolding f w_def .
  from interleaved_run[OF l0 refl refl assms(5)]
  have vm: "messages v = messages w" and vp: "pending v = pending w"
    unfolding v_def fw by blast+
  have wm: "messages w = messages u @ [\<lparr>role = Model, text = (if cs = [] then ''...'' else concat cs),
                          citations = None\<rparr>]"
    and wp: "pending w = Some (tk\<lparr>phase := Streaming (concat cs)\<rparr>)"
    unfolding w_def using stream_run[OF p ph] by blast+
  have r1: "run (Submit # pre) s = v" unfolding v_def u0_def by simp
  have r2: "run (Submit # pre @ [StreamDone]) s = step StreamDone v"
    unfolding v_def u0_def using run_append[of pre "[StreamDone]" "step Submit s"] by simp
  have d: "step StreamDone v = finallyBlock v"
    using vp wp by simp
  show ?thesis
    unfolding r1 r2 d using vm wm m by (simp add: finallyBlock_def)
qed


theorem C3_streaming_witness:
  "filter streamEvent [StreamOpened, Chunk ''Force '', RemoveFile, Submit,
                       Chunk ''majeure is...''] =
     StreamOpened # map Chunk [''Force '', ''majeure is...''] \<and>
   messages (run (Submit # [StreamOpened, Chunk ''Force '', RemoveFile, Submit,
                            Chunk ''majeure is...''] @ [StreamDone])
      (session [SelectPersona legal_pro None, Change ''What is force majeure?''])) =
     [\<lparr>role = Model, text = [], citations = None\<rparr>,
      \<lparr>role = User, text = ''What is force majeure?'', citations = None\<rparr>,
      \<lparr>role = Model, text = ''Force majeure is...'', citations = None\<rparr>]"
proof -
  let ?c = "\<lparr>chatId = 1, model = ''gemini-2.5-flash'',
           config = \<lparr>systemInstruction = Some (instruction (AI_MODELS legal_pro)),
                      tools = None\<rparr>\<rparr>"
  let ?s = "session [SelectPersona legal_pro None, Change ''What is force majeure?'']"
  let ?pre = "[StreamOpened, Chunk ''Force '', RemoveFile, Submit, Chunk ''majeure is...'']"
  have h: "trim (input ?s) \<noteq> [] \<or> attachedFile ?s \<noteq> None" "\<not> isLoading ?s"
    "chat ?s = Some ?c" "\<not> isDeepSearch ?s"
    by (simp_all add: session_def mount_None onModelChange_def effectCurrentModel_def
        startChat_def animateWelcomeMessage_def clearRef_def clearInterval_def Let_def
        trim_def isWhiteSpace_def del: AI_MODELS.simps)
  have v: "input ?s = ''What is force majeure?''" "attachedFile ?s = None"
    "messages ?s = [\<lparr>role = Model, text = [], citations = None\<rparr>]"
    by (simp_all add: session_def mount_None onModelChange_def effectCurrentModel_def
        startChat_def animateWelcomeMessage_def clearRef_def clearInterval_def Let_def
        del: AI_MODELS.simps)
  have a: "\<forall>e \<in> set ?pre. streamEvent e \<or> bystander e" by simp
  have f: "filter streamEvent ?pre =
           (case attachedFile ?s of None \<Rightarrow> [] | Some f \<Rightarrow> [FileLoadEnd (Some d)]) @
           StreamOpened # map Chunk [''Force '', ''majeure is...'']" for d
    by (simp add: v)
  from C3_streaming[OF h a f]
  have "messages (run (Submit # ?pre @ [StreamDone]) ?s) =
     messages ?s @
       [\<lparr>role = User, text = userText (input ?s) (attachedFile ?s), citations = None\<rparr>,
        \<lparr>role = Model,
         text = (if [''Force '', ''majeure is...''] = [] then ''...''
                 else concat [''Force '', ''majeure is...'']),
         citations = None\<rparr>]"
    by blast
  then have "messages (run (Submit # ?pre @ [StreamDone]) ?s) =
     [\<lparr>role = Model, text = [], citations = None\<rparr>,
      \<lparr>role = User, text = ''What is force majeure?'', citations = None\<rparr>,
      \<lparr>role = Model, text = ''Force majeure is...'', citations = None\<rparr>]"
    by (simp add: v userText_def del: run.simps step.simps)
  moreover have "filter streamEvent ?pre = StreamOpened # map Chunk [''Force '', ''majeure is...'']"
    by simp
  ultimately show ?thesis by blast
qed

text \<open>
  The claim as stated covers every finite sequence of chunks and every run of the
  send. When the stream opens and ends with no chunk, no update replaces the
  placeholder: the final model entry reads ..., which is not the concatenation of the
  chunk texts (the empty string). And when a frame of the welcome animation fires
  between a chunk and the end of the stream, the send ends without error while the
  transcript is the frame alone: no entry holds the chunk text.
\<close>

theorem C3_streaming_counterexample:
  "text (last (messages
      (session (Change ''hi'' # Submit # StreamOpened # map Chunk [] @ [StreamDone])))) = ''...'' \<and>
   concat ([] :: string list) \<noteq> ''...'' \<and>
   messages (session [Change ''hi'', Submit, StreamOpened, Chunk ''ab'', Tick 1, StreamDone]) =
     [\<lparr>role = Model, text = ''\<newline>'' @ cursor, citations = None\<rparr>]"
  using banner_first banner_nonempty
  by (simp add: session_def mount_None handleSendMessage_def handleStandardChat_def
      sendMessageStream_def trim_def isWhiteSpace_def Let_def userText_def setLast_def
      finallyBlock_def intervalCallback_def take_Suc_conv_app_nth del: AI_MODELS.simps)

section \<open>Citations of a deep search\<close>



section \<open>The welcome animation after a persona switch\<close>

text \<open>
  Claim C5, as the code has it. In a reachable state, a switch to another persona
  whose session is created seeds the transcript with one model entry of empty text.
  Ticking the new timer, the j-th frame (j from 1 to the length of the banner) is the
  single model entry holding the first j characters of the banner followed by the
  cursor, and the timer is still live; one more tick leaves the single model entry
  holding the banner verbatim and no live timer. Whatever happens after the switch,
  and whether or not the session could be created, a tick of any timer handed out
  before the switch changes nothing.
\<close>

theorem C5_welcome_animation:
  assumes "reachable s" "k \<noteq> currentModel s"
  shows "messages (step (SelectPersona k None) s) = [\<lparr>role = Model, text = [], citations = None\<rparr>] \<and>
     (\<forall>j. 0 < j \<and> j \<le> length fullWelcomeMessageText \<longrightarrow>
        messages (run (SelectPersona k None # replicate j (Tick (nextTimer s))) s) =
          [\<lparr>role = Model, text = take j fullWelcomeMessageText @ cursor, citations = None\<rparr>] \<and>
        intervals (run (SelectPersona k None # replicate j (Tick (nextTimer s))) s) (nextTimer s)
          \<noteq> None) \<and>
     messages (run (SelectPersona k None #
                    replicate (Suc (length fullWelcomeMessageText)) (Tick (nextTimer s))) s) =
       [\<lparr>role = Model, text = fullWelcomeMessageText, citations = None\<rparr>] \<and>
     intervals (run (SelectPersona k None #
                     replicate (Suc (length fullWelcomeMessageText)) (Tick (nextTimer s))) s) =
       (\<lambda>_. None) \<and>
     (\<forall>t es. t < nextTimer s \<longrightarrow>
        step (Tick t) (run (SelectPersona k outcome # es) s) = run (SelectPersona k outcome # es) s)"
proof -
  note inv = reachable_inv[OF assms(1)]
  define T where "T = nextTimer s"
  define u where "u = step (SelectPersona k None) s"
  have um: "messages u = [\<lparr>role = Model, text = [], citations = None\<rparr>]"
    and ui: "intervals u = (\<lambda>_. None)(T \<mapsto> (0, []))"
    and ur: "welcomeAnimationIntervalRef u = Some T"
    unfolding u_def T_def using switch_state[OF inv assms(2)] by blast+
  have r: "run (SelectPersona k None # es) s = run es u" for es
    unfolding u_def by simp
  have u0: "intervals u T = Some (0, take 0 fullWelcomeMessageText)"
    by (simp add: ui)
  have frames: "intervals (run (replicate j (Tick T)) u) =
           (intervals u)(T \<mapsto> (j, take j fullWelcomeMessageText)) \<and>
         welcomeAnimationIntervalRef (run (replicate j (Tick T)) u) = Some T \<and>
         messages (run (replicate j (Tick T)) u) =
           (if j = 0 then messages u
            else [\<lparr>role = Model, text = take j fullWelcomeMessageText @ cursor,
                   citations = None\<rparr>])"
    if "j \<le> length fullWelcomeMessageText" for j
    using ticks_run[OF u0, of j] that by (simp add: ur)
  define w where "w = run (replicate (length fullWelcomeMessageText) (Tick T)) u"
  have wi: "intervals w = (\<lambda>_. None)(T \<mapsto> (length fullWelcomeMessageText, fullWelcomeMessageText))"
    and wr: "welcomeAnimationIntervalRef w = Some T"
    unfolding w_def using frames[of "length fullWelcomeMessageText"] by (simp_all add: ui)
  have "run (replicate (Suc (length fullWelcomeMessageText)) (Tick T)) u = step (Tick T) w"
    unfolding w_def
    using run_append[of "replicate (length fullWelcomeMessageText) (Tick T)" "[Tick T]" u]
    by (simp add: replicate_append_same)
  also have "\<dots> = w\<lparr>intervals := (intervals w)(T := None),
       messages := [\<lparr>role = Model, text = fullWelcomeMessageText, citations = None\<rparr>]\<rparr>"
    by (rule tick_last) (simp_all add: wi wr)
  finally have final: "run (replicate (Suc (length fullWelcomeMessageText)) (Tick T)) u =
     w\<lparr>intervals := (intervals w)(T := None),
       messages := [\<lparr>role = Model, text = fullWelcomeMessageText, citations = None\<rparr>]\<rparr>" .
  have stale: "step (Tick t) (run (SelectPersona k outcome # es) s) =
      run (SelectPersona k outcome # es) s" if "t < nextTimer s" for t es
  proof -
    from switch_clears[OF inv assms(2) that, of outcome]
    have "intervals (run es (step (SelectPersona k outcome) s)) t = None"
      by (intro dead_run) simp_all
    then show ?thesis by (simp add: tick_dead del: step.simps)
  qed
  have c1: "messages (step (SelectPersona k None) s) =
      [\<lparr>role = Model, text = [], citations = None\<rparr>]"
    using um unfolding u_def .
  have c2: "\<forall>j. 0 < j \<and> j \<le> length fullWelcomeMessageText \<longrightarrow>
        messages (run (SelectPersona k None # replicate j (Tick (nextTimer s))) s) =
          [\<lparr>role = Model, text = take j fullWelcomeMessageText @ cursor, citations = None\<rparr>] \<and>
        intervals (run (SelectPersona k None # replicate j (Tick (nextTimer s))) s) (nextTimer s)
          \<noteq> None"
    unfolding r T_def[symmetric] using frames by simp
  have c3: "messages (run (SelectPersona k None #
                    replicate (Suc (length fullWelcomeMessageText)) (Tick (nextTimer s))) s) =
       [\<lparr>role = Model, text = fullWelcomeMessageText, citations = None\<rparr>]"
    unfolding r T_def[symmetric] final by simp
  have c4: "intervals (run (SelectPersona k None #
                     replicate (Suc (length fullWelcomeMessageText)) (Tick (nextTimer s))) s) =
       (\<lambda>_. None)"
    unfolding r T_def[symmetric] final by (simp add: wi)
  have c5: "\<forall>t es. t < nextTimer s \<longrightarrow>
        step (Tick t) (run (SelectPersona k outcome # es) s) = run (SelectPersona k outcome # es) s"
    using stale by blast
  from c1 c2 c3 c4 c5 show ?thesis by blast
qed

theorem C5_welcome_animation_witness:
  "reachable (mount None) \<and> legal_pro \<noteq> currentModel (mount None) \<and>
   messages (run (SelectPersona legal_pro None # replicate 1 (Tick 2)) (mount None)) =
     [\<lparr>role = Model, text = ''\<newline>'' @ cursor, citations = None\<rparr>] \<and>
   messages (run (SelectPersona legal_pro None #
                  replicate (Suc (length fullWelcomeMessageText)) (Tick 2)) (mount None)) =
     [\<lparr>role = Model, text = fullWelcomeMessageText, citations = None\<rparr>] \<and>
   step (Tick 1) (run [SelectPersona legal_pro None, Change ''hi'', Submit] (mount None)) =
     run [SelectPersona legal_pro None, Change ''hi'', Submit] (mount None)"
proof -
  have h1: "reachable (mount None)" by (rule reachable.mounted)
  have h2: "legal_pro \<noteq> currentModel (mount None)" by (simp add: mount_timer)
  note t = C5_welcome_animation[OF h1 h2, of None, unfolded mount_timer]
  have j: "0 < (1::nat) \<and> 1 \<le> length fullWelcomeMessageText"
    using banner_nonempty by arith
  from t j have "messages (run (SelectPersona legal_pro None # replicate 1 (Tick 2)) (mount None)) =
     [\<lparr>role = Model, text = take 1 fullWelcomeMessageText @ cursor, citations = None\<rparr>]"
    by blast
  then have a: "messages (run (SelectPersona legal_pro None # replicate 1 (Tick 2)) (mount None)) =
     [\<lparr>role = Model, text = ''\<newline>'' @ cursor, citations = None\<rparr>]"
    unfolding banner_first .
  from t have b: "messages (run (SelectPersona legal_pro None #
                  replicate (Suc (length fullWelcomeMessageText)) (Tick 2)) (mount None)) =
     [\<lparr>role = Model, text = fullWelcomeMessageText, citations = None\<rparr>]"
    by blast
  have "(1::nat) < 2" by simp
  with t have c: "step (Tick 1) (run [SelectPersona legal_pro None, Change ''hi'', Submit] (mount None)) =
     run [SelectPersona legal_pro None, Change ''hi'', Submit] (mount None)"
    by blast
  from h1 h2 a b c show ?thesis by blast
qed

text \<open>
  The claim as stated makes every frame before the last a proper prefix of the banner
  followed by the cursor. After the switch the seed frame is the empty text with no
  cursor, and after as many ticks as the banner has characters the frame is the whole
  banner followed by the cursor while the timer is still live: the cursor is removed
  by one more tick.
\<close>

theorem C5_last_frame_counterexample:
  "messages (step (SelectPersona legal_pro None) (mount None)) =
     [\<lparr>role = Model, text = [], citations = None\<rparr>] \<and>
   messages (run (SelectPersona legal_pro None #
                  replicate (length fullWelcomeMessageText) (Tick 2)) (mount None)) =
     [\<lparr>role = Model, text = fullWelcomeMessageText @ cursor, citations = None\<rparr>] \<and>
   intervals (run (SelectPersona legal_pro None #
                   replicate (length fullWelcomeMessageText) (Tick 2)) (mount None)) 2 \<noteq> None"
proof -
  define u where "u = step (SelectPersona legal_pro None) (mount None)"
  have sw: "messages u = [\<lparr>role = Model, text = [], citations = None\<rparr>] \<and>
         intervals u = (\<lambda>_. None)(2 \<mapsto> (0, [])) \<and>
         welcomeAnimationIntervalRef u = Some 2"
    unfolding u_def
    using switch_state[OF inv_mount, of legal_pro None] by (simp add: mount_timer)
  then have u0: "intervals u 2 = Some (0, take 0 fullWelcomeMessageText)" by simp
  have r: "run (SelectPersona legal_pro None # es) (mount None) = run es u" for es
    unfolding u_def by simp
  from ticks_run[OF u0, of "length fullWelcomeMessageText"] banner_nonempty
  have "intervals (run (replicate (length fullWelcomeMessageText) (Tick 2)) u) 2 \<noteq> None \<and>
        messages (run (replicate (length fullWelcomeMessageText) (Tick 2)) u) =
          [\<lparr>role = Model, text = fullWelcomeMessageText @ cursor, citations = None\<rparr>]"
    by simp
  then show ?thesis unfolding r using sw unfolding u_def by blast
qed

section \<open>Export of the transcript\<close>

text \<open>
  Claim C6, as the code has it. The exported text is \<open>spec_export\<close>: each entry is the
  heading of its role, a newline and what the browser reads back from a detached
  element whose HTML is the entry's text as stored (the text content, or the inner
  text when that is empty), followed by the sources block, with its lines numbered
  from 1, exactly when the entry has a non-empty citation list; the entries are joined
  in transcript order by the separator. The stored text is not rendered as markup
  before it is read back: when the readings return a text without special characters
  as it is, as the HTML parser does, an entry with such a text is exported with its
  text verbatim, lightweight markup included.
\<close>

theorem C6_export:
  "handleDownloadChat textContent innerText msgs = spec_export textContent innerText msgs \<and>
   (readsPlain textContent \<and> readsPlain innerText \<and> (\<forall>m \<in> set msgs. htmlFree (text m)) \<longrightarrow>
      handleDownloadChat textContent innerText msgs = spec_export (\<lambda>t. t) (\<lambda>t. t) msgs)"
proof -
  have e: "handleDownloadChat textContent innerText msgs = spec_export textContent innerText msgs"
    unfolding handleDownloadChat_def export_entry by (rule join_spec_export)
  have "spec_export textContent innerText msgs = spec_export (\<lambda>t. t) (\<lambda>t. t) msgs"
    if "readsPlain textContent" "readsPlain innerText" "\<forall>m \<in> set msgs. htmlFree (text m)"
    by (rule spec_export_cong) (use that in \<open>simp add: spec_entry_plain\<close>)
  with e show ?thesis by simp
qed

theorem C6_export_witness:
  "handleDownloadChat htmlText htmlText
     [\<lparr>role = User, text = ''q'', citations = None\<rparr>,
      \<lparr>role = Model, text = ''<p>a <b>b</b></p>'', citations = Some []\<rparr>,
      \<lparr>role = Model, text = ''c'',
       citations = Some [\<lparr>uri = ''u1'', title = ''t1''\<rparr>, \<lparr>uri = ''u2'', title = ''t2''\<rparr>]\<rparr>] =
   ''> User:\<newline>q\<newline>\<newline>---\<newline>\<newline>< AI:\<newline>a b\<newline>\<newline>---\<newline>\<newline>< AI:\<newline>c\<newline>\<newline>Sources:\<newline>[1] t1: u1\<newline>[2] t2: u2'' \<and>
   readsPlain htmlText \<and> htmlFree ''# T\<newline>**b** and _i_'' \<and>
   handleDownloadChat htmlText htmlText
     [\<lparr>role = Model, text = ''# T\<newline>**b** and _i_'', citations = None\<rparr>] =
   ''< AI:\<newline># T\<newline>**b** and _i_''"
proof -
  let ?a = "[\<lparr>role = User, text = ''q'', citations = None\<rparr>,
      \<lparr>role = Model, text = ''<p>a <b>b</b></p>'', citations = Some []\<rparr>,
      \<lparr>role = Model, text = ''c'',
       citations = Some [\<lparr>uri = ''u1'', title = ''t1''\<rparr>, \<lparr>uri = ''u2'', title = ''t2''\<rparr>]\<rparr>]"
  let ?b = "[\<lparr>role = Model, text = ''# T\<newline>**b** and _i_'', citations = None\<rparr>]"
  have f: "htmlFree ''# T\<newline>**b** and _i_''" by (simp add: htmlFree_def)
  then have h: "readsPlain htmlText \<and> readsPlain htmlText \<and> (\<forall>m \<in> set ?b. htmlFree (text m))"
    by (simp add: readsPlain_htmlText)
  from C6_export[of htmlText htmlText ?a]
  have "handleDownloadChat htmlText htmlText ?a = spec_export htmlText htmlText ?a" by blast
  then have a: "handleDownloadChat htmlText htmlText ?a =
   ''> User:\<newline>q\<newline>\<newline>---\<newline>\<newline>< AI:\<newline>a b\<newline>\<newline>---\<newline>\<newline>< AI:\<newline>c\<newline>\<newline>Sources:\<newline>[1] t1: u1\<newline>[2] t2: u2''"
    by (simp add: spec_entry_def spec_reading_def htmlText_def isLetter_def)
  from C6_export[of htmlText htmlText ?b] h
  have "handleDownloadChat htmlText htmlText ?b = spec_export (\<lambda>t. t) (\<lambda>t. t) ?b" by blast
  then have b: "handleDownloadChat htmlText htmlText ?b = ''< AI:\<newline># T\<newline>**b** and _i_''"
    by (simp add: spec_entry_def spec_reading_def)
  from a b f readsPlain_htmlText show ?thesis by blast
qed

text \<open>
  The claim as stated has the text of an entry stripped of its markup. The reply below
  holds lightweight markup and one HTML tag pair; what is read back from the element
  has lost the tags and kept the markup, and that is what the export holds.
\<close>

theorem C6_markup_kept_counterexample:
  "handleDownloadChat htmlText htmlText
     [\<lparr>role = Model, text = ''**b** <b>x</b>'', citations = None\<rparr>] = ''< AI:\<newline>**b** x''"
  by (simp add: handleDownloadChat_def plainText_def htmlText_def isLetter_def)

section \<open>The guard of the submit handler\<close>

text \<open>
  Claim C7, as the code has it. A submit is a no-op (the whole state, the transcript
  and the list of API calls included, is unchanged) when the input holds nothing but
  white space and no file is attached, or a send is in flight, or there is no session.
  In every other state the send proceeds: the field is cleared, the user entry is
  appended right after the old transcript, the in-flight flag is set and the call is
  suspended at an await. The test is on the trimmed input: a non-empty input of white
  space alone, with no attachment, does not send.
\<close>

theorem C7_send_guard:
  "(((\<forall>c \<in> set (input s). isWhiteSpace c) \<and> attachedFile s = None) \<or> isLoading s \<or> chat s = None
      \<longrightarrow> step Submit s = s) \<and>
   (\<not> ((\<forall>c \<in> set (input s). isWhiteSpace c) \<and> attachedFile s = None) \<and> \<not> isLoading s \<and> chat s \<noteq> None
      \<longrightarrow> isLoading (step Submit s) \<and> pending (step Submit s) \<noteq> None \<and>
          input (step Submit s) = [] \<and>
          take (Suc (length (messages s))) (messages (step Submit s)) =
            messages s @
              [\<lparr>role = User, text = userText (input s) (attachedFile s), citations = None\<rparr>])"
proof (intro conjI impI)
  assume "((\<forall>c \<in> set (input s). isWhiteSpace c) \<and> attachedFile s = None) \<or> isLoading s \<or> chat s = None"
  then show "step Submit s = s"
    by (simp add: submit_blocked trim_Nil_iff)
next
  assume a: "\<not> ((\<forall>c \<in> set (input s). isWhiteSpace c) \<and> attachedFile s = None) \<and> \<not> isLoading s \<and> chat s \<noteq> None"
  then obtain c where c: "chat s = Some c" by auto
  from a have g: "trim (input s) \<noteq> [] \<or> attachedFile s \<noteq> None" and l: "\<not> isLoading s"
    by (auto simp: trim_Nil_iff)
  consider (deep) "isDeepSearch s" | (std) "\<not> isDeepSearch s \<and> attachedFile s = None"
    | (att) "\<not> isDeepSearch s \<and> attachedFile s \<noteq> None"
    by blast
  then have "isLoading (step Submit s) \<and> pending (step Submit s) \<noteq> None \<and>
          input (step Submit s) = [] \<and>
          take (Suc (length (messages s))) (messages (step Submit s)) =
            messages s @
              [\<lparr>role = User, text = userText (input s) (attachedFile s), citations = None\<rparr>]"
  proof cases
    case deep
    then show ?thesis by (simp add: submit_deep[OF g l c])
  next
    case std
    then show ?thesis by (simp add: submit_standard[OF g l c] userText_def)
  next
    case att
    then obtain f where "attachedFile s = Some f" by auto
    with att show ?thesis by (simp add: submit_standard_file[OF l c])
  qed
  then show "isLoading (step Submit s)" "pending (step Submit s) \<noteq> None"
    "input (step Submit s) = []"
    "take (Suc (length (messages s))) (messages (step Submit s)) =
            messages s @
              [\<lparr>role = User, text = userText (input s) (attachedFile s), citations = None\<rparr>]"
    by simp_all
qed

theorem C7_send_guard_witness:
  "step Submit (session [Change '' '']) = session [Change '' ''] \<and>
   isLoading (step Submit (session [Change ''hi''])) \<and>
   pending (step Submit (session [Change ''hi''])) \<noteq> None"
proof -
  let ?a = "session [Change '' '']" and ?b = "session [Change ''hi'']"
  have ha: "((\<forall>c \<in> set (input ?a). isWhiteSpace c) \<and> attachedFile ?a = None) \<or> isLoading ?a \<or> chat ?a = None"
    by (simp add: session_def mount_None isWhiteSpace_def)
  have hb: "\<not> ((\<forall>c \<in> set (input ?b). isWhiteSpace c) \<and> attachedFile ?b = None) \<and> \<not> isLoading ?b \<and> chat ?b \<noteq> None"
    by (simp add: session_def mount_None isWhiteSpace_def)
  from C7_send_guard[of ?a] ha have "step Submit ?a = ?a" by blast
  moreover from C7_send_guard[of ?b] hb
  have "isLoading (step Submit ?b) \<and> pending (step Submit ?b) \<noteq> None" by blast
  ultimately show ?thesis by blast
qed

text \<open>
  The claim as stated lets every non-empty input proceed. After the two blanks are
  typed the input is not empty and nothing blocks a send but the trim, yet the submit
  changes nothing.
\<close>

theorem C7_whitespace_only_counterexample:
  "input (session [Change ''  '']) \<noteq> [] \<and>
   step Submit (session [Change ''  '']) = session [Change ''  '']"
  by (simp add: session_def mount_None handleSendMessage_def trim_def isWhiteSpace_def)

section \<open>The end of a send cycle\<close>

text \<open>
  Claim C8. Whenever a step completes a suspended send (the suspended call is gone
  after it), the in-flight flag is false, the pending attachment is cleared and the
  deep-search toggle is off. A send can always complete: a rejection of what it awaits
  ends it from every await, the end of the stream ends a streaming send and the
  response ends a deep search. A failure leaves the error message set; it is the next
  submit that clears it.
\<close>

theorem C8_send_cycle_cleanup:
  assumes "pending s = Some tk"
  shows "(pending (step e s) = None \<longrightarrow>
            \<not> isLoading (step e s) \<and> attachedFile (step e s) = None \<and> \<not> isDeepSearch (step e s)) \<and>
         pending (step (Rejected err) s) = None \<and>
         error (step (Rejected err) s) = Some (''Error from AI: '' @ errorMessage err) \<and>
         (phase tk = Streaming m \<longrightarrow>
            pending (step StreamDone s) = None \<and> error (step StreamDone s) = error s) \<and>
         (phase tk = AwaitGenerate \<longrightarrow>
            pending (step (Generated r) s) = None \<and> error (step (Generated r) s) = error s) \<and>
         (chat s \<noteq> None \<and> trim v \<noteq> [] \<longrightarrow>
            error (run [Rejected err, Change v] s) \<noteq> None \<and>
            error (run [Rejected err, Change v, Submit] s) = None)"
proof (intro conjI impI)
  assume "pending (step e s) = None"
  with assms show "\<not> isLoading (step e s)" "attachedFile (step e s) = None"
    "\<not> isDeepSearch (step e s)"
    using pending_step_None by blast+
next
  show "pending (step (Rejected err) s) = None"
    using assms by (simp add: finallyBlock_def)
  show "error (step (Rejected err) s) = Some (''Error from AI: '' @ errorMessage err)"
    using assms by (simp add: finallyBlock_def catchBlock_def)
next
  assume "phase tk = Streaming m"
  with assms show "pending (step StreamDone s) = None" "error (step StreamDone s) = error s"
    by (simp_all add: finallyBlock_def)
next
  assume "phase tk = AwaitGenerate"
  with assms show "pending (step (Generated r) s) = None"
    "error (step (Generated r) s) = error s"
    by (simp_all add: finallyBlock_def)
next
  assume a: "chat s \<noteq> None \<and> trim v \<noteq> []"
  then obtain c where c: "chat s = Some c" by auto
  define u where "u = step (Change v) (step (Rejected err) s)"
  have u: "u = s\<lparr>error := Some (''Error from AI: '' @ errorMessage err),
                   messages := butlast (messages s), isLoading := False,
                   attachedFile := None, isDeepSearch := False, pending := None, input := v\<rparr>"
    unfolding u_def using assms c by (simp add: finallyBlock_def catchBlock_def)
  have r2: "run [Rejected err, Change v] s = u" and r3: "run [Rejected err, Change v, Submit] s = step Submit u"
    unfolding u_def by simp_all
  show "error (run [Rejected err, Change v] s) \<noteq> None"
    unfolding r2 by (simp add: u)
  have "handleSendMessage u = u\<lparr>input := [],
       messages := messages u @ [\<lparr>role = User, text = input u, citations = None\<rparr>],
       isLoading := True, error := None,
       apiCalls := apiCalls u @ [SendMessageStream c [Str (input u)]],
       pending := Some \<lparr>currentInput = input u, capturedFile = None,
                         capturedChat = c, phase = AwaitStream\<rparr>\<rparr>"
    by (rule submit_standard) (use a c in \<open>simp_all add: u\<close>)
  then have "error (step Submit u) = None" by simp
  then show "error (run [Rejected err, Change v, Submit] s) = None"
    unfolding r3 .
qed

theorem C8_send_cycle_cleanup_witness:
  "pending (session [Change ''hi'', Submit, StreamOpened]) =
     Some \<lparr>currentInput = ''hi'', capturedFile = None,
            capturedChat = \<lparr>chatId = 0, model = ''gemini-2.5-flash'',
              config = \<lparr>systemInstruction = Some (instruction (AI_MODELS ecoiuris)),
                         tools = None\<rparr>\<rparr>,
            phase = Streaming []\<rparr> \<and>
   pending (step StreamDone (session [Change ''hi'', Submit, StreamOpened])) = None \<and>
   \<not> isLoading (step StreamDone (session [Change ''hi'', Submit, StreamOpened])) \<and>
   attachedFile (step StreamDone (session [Change ''hi'', Submit, StreamOpened])) = None \<and>
   \<not> isDeepSearch (step StreamDone (session [Change ''hi'', Submit, StreamOpened])) \<and>
   error (step (Rejected (Error ''503'')) (session [Change ''hi'', Submit, StreamOpened])) =
     Some ''Error from AI: 503'' \<and>
   error (run [Rejected (Error ''503''), Change ''again'', Submit]
            (session [Change ''hi'', Submit, StreamOpened])) = None \<and>
   isDeepSearch (session [Change ''hi'', ToggleDeepSearch, Submit]) \<and>
   pending (step (Generated \<lparr>responseText = ''ok'', candidates = None\<rparr>)
     (session [Change ''hi'', ToggleDeepSearch, Submit])) = None \<and>
   \<not> isDeepSearch (step (Generated \<lparr>responseText = ''ok'', candidates = None\<rparr>)
     (session [Change ''hi'', ToggleDeepSearch, Submit]))"
proof -
  let ?c = "\<lparr>chatId = 0, model = ''gemini-2.5-flash'',
              config = \<lparr>systemInstruction = Some (instruction (AI_MODELS ecoiuris)),
                         tools = None\<rparr>\<rparr>"
  let ?s = "session [Change ''hi'', Submit, StreamOpened]"
  let ?tk = "\<lparr>currentInput = ''hi'', capturedFile = None, capturedChat = ?c,
              phase = Streaming []\<rparr>"
  let ?d = "session [Change ''hi'', ToggleDeepSearch, Submit]"
  let ?td = "\<lparr>currentInput = ''hi'', capturedFile = None, capturedChat = ?c,
              phase = AwaitGenerate\<rparr>"
  let ?r = "\<lparr>responseText = ''ok'', candidates = None\<rparr>"
  have p: "pending ?s = Some ?tk"
    by (simp add: session_def mount_None handleSendMessage_def handleStandardChat_def
        sendMessageStream_def trim_def isWhiteSpace_def Let_def del: AI_MODELS.simps)
  have c: "chat ?s \<noteq> None \<and> trim ''again'' \<noteq> []"
    by (simp add: session_def mount_None handleSendMessage_def handleStandardChat_def
        sendMessageStream_def trim_def isWhiteSpace_def Let_def del: AI_MODELS.simps)
  have ph: "phase ?tk = Streaming []" by simp
  have pd: "pending ?d = Some ?td" and dd: "isDeepSearch ?d"
    by (simp_all add: session_def mount_None handleSendMessage_def handleDeepSearch_def
        trim_def isWhiteSpace_def Let_def del: AI_MODELS.simps)
  have phd: "phase ?td = AwaitGenerate" by simp
  note t = C8_send_cycle_cleanup[OF p, where e = StreamDone and err = "Error ''503''"
      and m = "[]" and v = "''again''"]
  note g = C8_send_cycle_cleanup[OF pd, where e = "Generated ?r" and r = ?r]
  from t ph have d: "pending (step StreamDone ?s) = None" by blast
  from t d have "\<not> isLoading (step StreamDone ?s) \<and> attachedFile (step StreamDone ?s) = None \<and>
      \<not> isDeepSearch (step StreamDone ?s)" by blast
  moreover from t have "error (step (Rejected (Error ''503'')) ?s) =
      Some (''Error from AI: '' @ errorMessage (Error ''503''))" by blast
  then have "error (step (Rejected (Error ''503'')) ?s) = Some ''Error from AI: 503''"
    by (simp add: errorMessage_def)
  moreover from t c have "error (run [Rejected (Error ''503''), Change ''again'', Submit] ?s) = None"
    by blast
  moreover from g phd have e: "pending (step (Generated ?r) ?d) = None" by blast
  moreover from g e have "\<not> isDeepSearch (step (Generated ?r) ?d)" by blast
  ultimately show ?thesis using p d dd by blast
qed

section \<open>Deep search with an attachment\<close>

text \<open>
  Claim C9. With deep search on and a file attached, the submit issues one
  \<open>generateContent\<close> request whose contents is the input text alone; the user entry
  carries the file annotation; no further API call is made when the request settles,
  either way, and the attachment is cleared afterwards.
\<close>

theorem C9_deep_search_drops_attachment:
  assumes "attachedFile s = Some f" "isDeepSearch s" "\<not> isLoading s" "chat s = Some c"
  shows "apiCalls (step Submit s) =
           apiCalls s @ [GenerateContent ''gemini-2.5-flash'' (input s)
                           \<lparr>systemInstruction = None, tools = Some [GoogleSearch]\<rparr>] \<and>
         messages (step Submit s) =
           messages s @
             [\<lparr>role = User,
               text = input s @ ''\<newline>\<newline>[File Attached: '' @ name f @ '']'', citations = None\<rparr>,
              \<lparr>role = Model, text = ''Performing deep search...'', citations = None\<rparr>] \<and>
         apiCalls (run [Submit, Generated r] s) = apiCalls (step Submit s) \<and>
         attachedFile (run [Submit, Generated r] s) = None \<and>
         apiCalls (run [Submit, Rejected err] s) = apiCalls (step Submit s) \<and>
         attachedFile (run [Submit, Rejected err] s) = None"
proof -
  have g: "trim (input s) \<noteq> [] \<or> attachedFile s \<noteq> None" using assms(1) by simp
  have d: "step Submit s = s\<lparr>input := [],
       messages := messages s @
         [\<lparr>role = User, text = userText (input s) (attachedFile s), citations = None\<rparr>,
          \<lparr>role = Model, text = ''Performing deep search...'', citations = None\<rparr>],
       isLoading := True, error := None,
       apiCalls := apiCalls s @
         [GenerateContent ''gemini-2.5-flash'' (input s)
            \<lparr>systemInstruction = None, tools = Some [GoogleSearch]\<rparr>],
       pending := Some \<lparr>currentInput = input s, capturedFile = attachedFile s,
                         capturedChat = c, phase = AwaitGenerate\<rparr>\<rparr>"
    using submit_deep[OF g assms(3,4,2)] by simp
  show ?thesis
    unfolding deep_cycle_ok[OF g assms(3,4,2)] deep_cycle_failed[OF g assms(3,4,2)] d
    by (simp add: assms(1) userText_def)
qed

theorem C9_deep_search_drops_attachment_witness:
  "attachedFile (session [Change ''What is force majeure?'',
       FileChosen (Some \<lparr>name = ''contract.pdf'', mimeType = ''application/pdf''\<rparr>),
       ToggleDeepSearch]) = Some \<lparr>name = ''contract.pdf'', mimeType = ''application/pdf''\<rparr> \<and>
   apiCalls (step Submit (session [Change ''What is force majeure?'',
       FileChosen (Some \<lparr>name = ''contract.pdf'', mimeType = ''application/pdf''\<rparr>),
       ToggleDeepSearch])) =
     apiCalls (mount None) @
       [GenerateContent ''gemini-2.5-flash'' ''What is force majeure?''
          \<lparr>systemInstruction = None, tools = Some [GoogleSearch]\<rparr>] \<and>
   messages (step Submit (session [Change ''What is force majeure?'',
       FileChosen (Some \<lparr>name = ''contract.pdf'', mimeType = ''application/pdf''\<rparr>),
       ToggleDeepSearch])) =
     [\<lparr>role = Model, text = [], citations = None\<rparr>,
      \<lparr>role = User, text = ''What is force majeure?\<newline>\<newline>[File Attached: contract.pdf]'',
       citations = None\<rparr>,
      \<lparr>role = Model, text = ''Performing deep search...'', citations = None\<rparr>] \<and>
   attachedFile (run [Submit, Generated \<lparr>responseText = ''ok'', candidates = None\<rparr>]
     (session [Change ''What is force majeure?'',
       FileChosen (Some \<lparr>name = ''contract.pdf'', mimeType = ''application/pdf''\<rparr>),
       ToggleDeepSearch])) = None"
proof -
  let ?f = "\<lparr>name = ''contract.pdf'', mimeType = ''application/pdf''\<rparr>"
  let ?s = "session [Change ''What is force majeure?'', FileChosen (Some ?f), ToggleDeepSearch]"
  have h: "attachedFile ?s = Some ?f" "isDeepSearch ?s" "\<not> isLoading ?s"
    "chat ?s = chat (mount None)"
    by (simp_all add: session_def mount_None del: AI_MODELS.simps)
  have v: "messages ?s = [\<lparr>role = Model, text = [], citations = None\<rparr>]"
    "input ?s = ''What is force majeure?''" "apiCalls ?s = apiCalls (mount None)"
    by (simp_all add: session_def mount_None del: AI_MODELS.simps)
  from C9_deep_search_drops_attachment[OF h(1-3) h(4)[unfolded mount_chat],
      where r = "\<lparr>responseText = ''ok'', candidates = None\<rparr>"] h(1)
  show ?thesis
    by (simp add: v del: run.simps step.simps)
qed

section \<open>Deep search and the chat session\<close>

text \<open>
  Claim C10. A deep-search send makes one \<open>generateContent\<close> request with no system
  instruction and no call on the chat session, whether it succeeds or fails; the
  session held by the component is the same afterwards; the request does not depend on
  the active persona or its session; and the next standard-chat send calls the session
  with the new input alone, so nothing of the deep-search turn reaches it.
\<close>

theorem C10_deep_search_bypasses_session:
  assumes "trim (input s) \<noteq> [] \<or> attachedFile s \<noteq> None" "\<not> isLoading s" "chat s = Some c"
    and "isDeepSearch s"
  shows "apiCalls (run [Submit, Generated r] s) =
           apiCalls s @ [GenerateContent ''gemini-2.5-flash'' (input s)
                           \<lparr>systemInstruction = None, tools = Some [GoogleSearch]\<rparr>] \<and>
         apiCalls (run [Submit, Rejected err] s) = apiCalls (run [Submit, Generated r] s) \<and>
         chat (run [Submit, Generated r] s) = Some c \<and>
         chat (run [Submit, Rejected err] s) = Some c \<and>
         apiCalls (run [Submit, Generated r] (s\<lparr>currentModel := k, chat := Some c'\<rparr>)) =
           apiCalls (run [Submit, Generated r] s) \<and>
         (trim v \<noteq> [] \<longrightarrow>
            apiCalls (run [Submit, Generated r, Change v, Submit] s) =
              apiCalls s @ [GenerateContent ''gemini-2.5-flash'' (input s)
                              \<lparr>systemInstruction = None, tools = Some [GoogleSearch]\<rparr>,
                            SendMessageStream c [Str v]])"
proof -
  let ?u = "run [Submit, Generated r] s"
  note u = deep_cycle_ok[OF assms, of r]
  have k: "apiCalls (run [Submit, Generated r] (s\<lparr>currentModel := k, chat := Some c'\<rparr>)) =
           apiCalls ?u"
  proof -
    have "run [Submit, Generated r] (s\<lparr>currentModel := k, chat := Some c'\<rparr>) = 
       (s\<lparr>currentModel := k, chat := Some c'\<rparr>)\<lparr>input := [],
       messages := messages s @
         [\<lparr>role = User, text = userText (input s) (attachedFile s), citations = None\<rparr>,
          \<lparr>role = Model, text = responseText r, citations = Some (citationsOf r)\<rparr>],
       isLoading := False, error := None,
       apiCalls := apiCalls s @
         [GenerateContent ''gemini-2.5-flash'' (input s)
            \<lparr>systemInstruction = None, tools = Some [GoogleSearch]\<rparr>],
       pending := None, attachedFile := None, isDeepSearch := False\<rparr>"
      using deep_cycle_ok[of "s\<lparr>currentModel := k, chat := Some c'\<rparr>" c' r] assms by simp
    then show ?thesis unfolding u by simp
  qed
  have n: "apiCalls (run [Submit, Generated r, Change v, Submit] s) =
              apiCalls s @ [GenerateContent ''gemini-2.5-flash'' (input s)
                              \<lparr>systemInstruction = None, tools = Some [GoogleSearch]\<rparr>,
                            SendMessageStream c [Str v]]" if v: "trim v \<noteq> []"
  proof -
    have r4: "run [Submit, Generated r, Change v, Submit] s = step Submit (step (Change v) ?u)"
      by simp
    have cv: "step (Change v) ?u = ?u\<lparr>input := v\<rparr>"
      unfolding u using assms by simp
    have "handleSendMessage (?u\<lparr>input := v\<rparr>) = (?u\<lparr>input := v\<rparr>)\<lparr>input := [],
       messages := messages (?u\<lparr>input := v\<rparr>) @
         [\<lparr>role = User, text = input (?u\<lparr>input := v\<rparr>), citations = None\<rparr>],
       isLoading := True, error := None,
       apiCalls := apiCalls (?u\<lparr>input := v\<rparr>) @ [SendMessageStream c [Str (input (?u\<lparr>input := v\<rparr>))]],
       pending := Some \<lparr>currentInput = input (?u\<lparr>input := v\<rparr>), capturedFile = None,
                         capturedChat = c, phase = AwaitStream\<rparr>\<rparr>"
      by (rule submit_standard) (use assms v in \<open>simp_all add: u del: run.simps\<close>)
    then have "apiCalls (step Submit (?u\<lparr>input := v\<rparr>)) =
        apiCalls ?u @ [SendMessageStream c [Str v]]"
      by simp
    then show ?thesis unfolding r4 cv unfolding u by simp
  qed
  show ?thesis
    using k n assms(3) by (simp add: deep_cycle_failed[OF assms] u del: run.simps)
qed

theorem C10_deep_search_bypasses_session_witness:
  "apiCalls (run [Submit, Generated \<lparr>responseText = ''ok'', candidates = None\<rparr>,
                  Change ''And hardship?'', Submit]
       (session [SelectPersona legal_pro None, Change ''What is force majeure?'',
                 ToggleDeepSearch])) =
     apiCalls (session [SelectPersona legal_pro None]) @
       [GenerateContent ''gemini-2.5-flash'' ''What is force majeure?''
          \<lparr>systemInstruction = None, tools = Some [GoogleSearch]\<rparr>,
        SendMessageStream
          \<lparr>chatId = 1, model = ''gemini-2.5-flash'',
           config = \<lparr>systemInstruction = Some (instruction (AI_MODELS legal_pro)),
                      tools = None\<rparr>\<rparr>
          [Str ''And hardship?'']] \<and>
   chat (run [Submit, Generated \<lparr>responseText = ''ok'', candidates = None\<rparr>]
       (session [SelectPersona legal_pro None, Change ''What is force majeure?'',
                 ToggleDeepSearch])) =
     Some \<lparr>chatId = 1, model = ''gemini-2.5-flash'',
           config = \<lparr>systemInstruction = Some (instruction (AI_MODELS legal_pro)),
                      tools = None\<rparr>\<rparr>"
proof -
  let ?c = "\<lparr>chatId = 1, model = ''gemini-2.5-flash'',
           config = \<lparr>systemInstruction = Some (instruction (AI_MODELS legal_pro)),
                      tools = None\<rparr>\<rparr>"
  let ?s = "session [SelectPersona legal_pro None, Change ''What is force majeure?'',
                 ToggleDeepSearch]"
  have h: "trim (input ?s) \<noteq> [] \<or> attachedFile ?s \<noteq> None" "\<not> isLoading ?s"
    "chat ?s = Some ?c" "isDeepSearch ?s"
    by (simp_all add: session_def mount_None onModelChange_def effectCurrentModel_def
        startChat_def animateWelcomeMessage_def clearRef_def clearInterval_def Let_def
        trim_def isWhiteSpace_def del: AI_MODELS.simps)
  have v: "input ?s = ''What is force majeure?''"
    "apiCalls ?s = apiCalls (session [SelectPersona legal_pro None])"
    by (simp_all add: session_def mount_None onModelChange_def effectCurrentModel_def
        startChat_def animateWelcomeMessage_def clearRef_def clearInterval_def Let_def
        del: AI_MODELS.simps)
  have t: "trim ''And hardship?'' \<noteq> []"
    by (simp add: trim_def isWhiteSpace_def)
  from C10_deep_search_bypasses_session[OF h,
      where r = "\<lparr>responseText = ''ok'', candidates = None\<rparr>" and v = "''And hardship?''"] t
  show ?thesis
    by (simp add: v del: run.simps step.simps AI_MODELS.simps)
qed

end
